theory Spec2Isabelle
  imports Complex_Main "HOL-Library.Char_ord" "HOL-Library.List_Lexorder" "HOL-Library.Option_ord"
    "HOL-Library.Log_Nat" "HOL-Library.Multiset"
begin

section \<open>The product catalog service (server.js)\<close>

text \<open>
  The handlers of \<^verbatim>\<open>server.js\<close> are modelled as functions of the request and of the
  products table. Modelling boundaries, the same everywhere below:
  \<^item> a JavaScript string is a \<open>string\<close> of ASCII characters;
  \<^item> a JavaScript number is \<open>NaN\<close>, an infinity or a double, given by its exact
    rational value; a sum, a product or a quotient is rounded to the nearest double;
  \<^item> every query-string field is absent or one string, every text field of a JSON body
    is absent or a string, every numeric field of a body is absent or a JSON number;
  \<^item> the store is SQLite behind the node-sqlite3 driver; the statements this server
    sends are given the meaning SQLite gives them. SQL leaves the order of rows with equal
    sort keys to the engine: that choice is a parameter of the store.
\<close>

subsection \<open>JavaScript values and built-ins\<close>

datatype number = NaN | NegInfinity | Finite rat | PosInfinity

datatype jsval = JStr string | JNum number

text \<open>
  IEEE doubles. \<open>binexp a\<close> is the binary exponent of a positive number, the \<open>e\<close> with
  \<open>2^e \<le> a < 2^(e+1)\<close>; \<open>roundDouble\<close> rounds to 53 significant bits (to a multiple of
  \<open>2^-1074\<close> for the smallest numbers), a tie going to the even neighbour. Whole numbers up
  to \<open>2^53\<close> are doubles. \<open>toDouble\<close> gives an infinity from \<open>2^1024\<close> on.
\<close>

definition pow2 :: "int \<Rightarrow> rat" where
  "pow2 e = (if 0 \<le> e then 2 ^ nat e else 1 / 2 ^ nat (- e))"

definition binexp :: "rat \<Rightarrow> int" where
  "binexp a = (if 1 \<le> a then bitlen \<lfloor>a\<rfloor> - 1 else - bitlen (\<lceil>1 / a\<rceil> - 1))"

definition roundHalfEven :: "rat \<Rightarrow> int" where
  "roundHalfEven y =
     (let f = \<lfloor>y\<rfloor>; d = y - of_int f
      in if d < 1 / 2 then f else if 1 / 2 < d then f + 1 else if even f then f else f + 1)"

definition roundDouble :: "rat \<Rightarrow> rat" where
  "roundDouble x =
     (if of_int \<lfloor>x\<rfloor> = x \<and> \<bar>x\<bar> \<le> 2 ^ 53 then x
      else (let e = max (binexp \<bar>x\<bar> - 52) (- 1074)
            in sgn x * of_int (roundHalfEven (\<bar>x\<bar> / pow2 e)) * pow2 e))"

definition toDouble :: "rat \<Rightarrow> number" where
  "toDouble x =
     (let v = roundDouble x
      in if 2 ^ 1024 \<le> \<bar>v\<bar> then (if x < 0 then NegInfinity else PosInfinity) else Finite v)"

text \<open>
  The arithmetic of the handlers: \<^verbatim>\<open>x - y\<close>, \<^verbatim>\<open>x * y\<close>, \<^verbatim>\<open>x / y\<close> and
  \<^verbatim>\<open>Math.ceil(x)\<close> (the sign of a zero is not kept).
\<close>

fun jsSub :: "number \<Rightarrow> number \<Rightarrow> number" where
  "jsSub (Finite a) (Finite b) = toDouble (a - b)"
| "jsSub NaN y = NaN"
| "jsSub x NaN = NaN"
| "jsSub PosInfinity PosInfinity = NaN"
| "jsSub NegInfinity NegInfinity = NaN"
| "jsSub PosInfinity y = PosInfinity"
| "jsSub NegInfinity y = NegInfinity"
| "jsSub x PosInfinity = NegInfinity"
| "jsSub x NegInfinity = PosInfinity"

fun jsMul :: "number \<Rightarrow> number \<Rightarrow> number" where
  "jsMul (Finite a) (Finite b) = toDouble (a * b)"
| "jsMul NaN y = NaN"
| "jsMul x NaN = NaN"
| "jsMul (Finite a) y =
     (if a = 0 then NaN else if (0 < a) = (y = PosInfinity) then PosInfinity else NegInfinity)"
| "jsMul x (Finite b) =
     (if b = 0 then NaN else if (0 < b) = (x = PosInfinity) then PosInfinity else NegInfinity)"
| "jsMul x y = (if x = y then PosInfinity else NegInfinity)"

fun jsDiv :: "number \<Rightarrow> number \<Rightarrow> number" where
  "jsDiv (Finite a) (Finite b) =
     (if b = 0 then (if a = 0 then NaN else if 0 < a then PosInfinity else NegInfinity)
      else toDouble (a / b))"
| "jsDiv NaN y = NaN"
| "jsDiv x NaN = NaN"
| "jsDiv (Finite a) y = Finite 0"
| "jsDiv x (Finite b) = (if (0 \<le> b) = (x = PosInfinity) then PosInfinity else NegInfinity)"
| "jsDiv x y = NaN"

definition mathCeil :: "number \<Rightarrow> number" where
  "mathCeil x = (case x of Finite r \<Rightarrow> Finite (of_int \<lceil>r\<rceil>) | _ \<Rightarrow> x)"

text \<open>\<^verbatim>\<open>x || d\<close> on a number: \<^verbatim>\<open>NaN\<close> and zero are falsy.\<close>

definition orElse :: "number \<Rightarrow> number \<Rightarrow> number" where
  "orElse x d = (case x of NaN \<Rightarrow> d | Finite r \<Rightarrow> if r = 0 then d else x | _ \<Rightarrow> x)"

text \<open>\<^verbatim>\<open>String.prototype.toUpperCase\<close>, on ASCII.\<close>

definition toUpperChar :: "char \<Rightarrow> char" where
  "toUpperChar c =
     (case map_of (zip ''abcdefghijklmnopqrstuvwxyz'' ''ABCDEFGHIJKLMNOPQRSTUVWXYZ'') c of
        Some u \<Rightarrow> u
      | None \<Rightarrow> c)"

definition toUpperCase :: "string \<Rightarrow> string" where
  "toUpperCase s = map toUpperChar s"

text \<open>The white space that \<^verbatim>\<open>parseInt\<close> and \<^verbatim>\<open>parseFloat\<close> skip: TAB, LF, VT, FF, CR, SP.\<close>

definition isWhiteSpace :: "char \<Rightarrow> bool" where
  "isWhiteSpace c = (c \<in> set [CHR 0x09, CHR 0x0A, CHR 0x0B, CHR 0x0C, CHR 0x0D, CHR '' ''])"

definition digitValue :: "char \<Rightarrow> nat option" where
  "digitValue c =
     map_of (zip ''0123456789abcdefghijklmnopqrstuvwxyz'' [0 ..< 36] @
             zip ''ABCDEFGHIJKLMNOPQRSTUVWXYZ'' [10 ..< 36]) c"

text \<open>The decimal digits.\<close>

definition decimal :: "char \<Rightarrow> bool" where
  "decimal c = (c \<in> set ''0123456789'')"

definition isRadixDigit :: "nat \<Rightarrow> char \<Rightarrow> bool" where
  "isRadixDigit R c = (case digitValue c of Some d \<Rightarrow> d < R | None \<Rightarrow> False)"

definition digitsValue :: "nat \<Rightarrow> string \<Rightarrow> nat" where
  "digitsValue R Z = foldl (\<lambda>a c. a * R + the (digitValue c)) 0 Z"

text \<open>
  A leading sign, as \<^verbatim>\<open>parseInt\<close> and \<^verbatim>\<open>parseFloat\<close> read it: the sign and the rest.
\<close>

definition splitSign :: "string \<Rightarrow> int \<times> string" where
  "splitSign S =
     (case S of
        [] \<Rightarrow> (1, S)
      | c # cs \<Rightarrow> if c = CHR ''-'' then (- 1, cs) else if c = CHR ''+'' then (1, cs) else (1, S))"

text \<open>
  \<^verbatim>\<open>parseInt(string)\<close> with no radix: skip white space, read a sign, read
  \<^verbatim>\<open>0x\<close> or \<^verbatim>\<open>0X\<close> as the hexadecimal prefix, then the longest run of digits;
  the result is the double nearest to the number read, \<^verbatim>\<open>NaN\<close> when there is no digit.
\<close>

definition parseInt :: "string \<Rightarrow> number" where
  "parseInt string =
     (let (sign, S) = splitSign (dropWhile isWhiteSpace string);
          (R, S') = (case S of
                       a # b # cs \<Rightarrow>
                         if a = CHR ''0'' \<and> (b = CHR ''x'' \<or> b = CHR ''X'') then (16, cs) else (10, S)
                     | _ \<Rightarrow> (10, S));
          Z = takeWhile (isRadixDigit R) S'
      in if Z = [] then NaN else toDouble (of_int sign * of_nat (digitsValue R Z)))"

text \<open>
  \<^verbatim>\<open>parseFloat(string)\<close>: skip white space, then the longest prefix that is a decimal
  literal: a sign, then \<^verbatim>\<open>Infinity\<close> or digits with an optional fraction and an
  optional exponent. The value is the double nearest to the decimal.
\<close>

fun stripPrefix :: "string \<Rightarrow> string \<Rightarrow> string option" where
  "stripPrefix [] s = Some s"
| "stripPrefix (p # ps) [] = None"
| "stripPrefix (p # ps) (c # cs) = (if p = c then stripPrefix ps cs else None)"

definition exponentPart :: "string \<Rightarrow> int" where
  "exponentPart r =
     (case r of
        [] \<Rightarrow> 0
      | c # cs \<Rightarrow>
          if c = CHR ''e'' \<or> c = CHR ''E'' then
            (let (sign, ds) = splitSign cs; Z = takeWhile (isRadixDigit 10) ds
             in if Z = [] then 0 else sign * int (digitsValue 10 Z))
          else 0)"

definition pow10 :: "int \<Rightarrow> rat" where
  "pow10 e = (if 0 \<le> e then 10 ^ nat e else 1 / 10 ^ nat (- e))"

definition parseFloat :: "string \<Rightarrow> number" where
  "parseFloat string =
     (let (sign, S) = splitSign (dropWhile isWhiteSpace string)
      in if stripPrefix ''Infinity'' S \<noteq> None then (if sign < 0 then NegInfinity else PosInfinity)
         else
           (let ip = takeWhile (isRadixDigit 10) S;
                r1 = dropWhile (isRadixDigit 10) S;
                (fp, r2) = (case r1 of
                              c # cs \<Rightarrow>
                                if c = CHR ''.''
                                then (takeWhile (isRadixDigit 10) cs, dropWhile (isRadixDigit 10) cs)
                                else ([], r1)
                            | [] \<Rightarrow> ([], r1))
            in if ip = [] \<and> fp = [] then NaN
               else toDouble (of_int sign
                      * (of_nat (digitsValue 10 ip) + of_nat (digitsValue 10 fp) / 10 ^ length fp)
                      * pow10 (exponentPart r2))))"

subsection \<open>GET /api/products: the request and the queries it builds\<close>

text \<open>\<^verbatim>\<open>req.query\<close>: each field is absent (\<^verbatim>\<open>undefined\<close>) or a string.\<close>

record request =
  req_category :: "string option"
  req_search :: "string option"
  req_minPrice :: "string option"
  req_maxPrice :: "string option"
  req_sortBy :: "string option"
  req_order :: "string option"
  req_page :: "string option"
  req_limit :: "string option"

text \<open>\<^verbatim>\<open>if (x)\<close> on a query field: \<^verbatim>\<open>undefined\<close> and the empty string are falsy.\<close>

definition truthy :: "string option \<Rightarrow> bool" where
  "truthy x = (case x of None \<Rightarrow> False | Some s \<Rightarrow> s \<noteq> [])"

text \<open>\<^verbatim>\<open>!x\<close> on a text that may be absent.\<close>

definition falsy :: "string option \<Rightarrow> bool" where
  "falsy x = (case x of None \<Rightarrow> True | Some s \<Rightarrow> s = [])"

text \<open>A request with no query string.\<close>

definition noQuery :: request where
  "noQuery = \<lparr>req_category = None, req_search = None, req_minPrice = None, req_maxPrice = None,
               req_sortBy = None, req_order = None, req_page = None, req_limit = None\<rparr>"

text \<open>
  \<^verbatim>\<open>const pageNum = parseInt(page) || 1\<close>, with the default \<^verbatim>\<open>page = 1\<close> of the
  destructuring (which \<^verbatim>\<open>parseInt\<close> reads as the string \<^verbatim>\<open>"1"\<close>); \<^verbatim>\<open>NaN\<close> and \<open>0\<close>
  are falsy.
\<close>

definition pageNum :: "request \<Rightarrow> number" where
  "pageNum req = orElse (parseInt (case req_page req of None \<Rightarrow> ''1'' | Some page \<Rightarrow> page)) (Finite 1)"

definition limitNum :: "request \<Rightarrow> number" where
  "limitNum req =
     orElse (parseInt (case req_limit req of None \<Rightarrow> ''20'' | Some limit \<Rightarrow> limit)) (Finite 20)"

text \<open>\<^verbatim>\<open>const offset = (pageNum - 1) * limitNum\<close>\<close>

definition offset :: "request \<Rightarrow> number" where
  "offset req = jsMul (jsSub (pageNum req) (Finite 1)) (limitNum req)"

text \<open>The two query texts and the parameter array, as the handler grows them.\<close>

record built =
  query :: string
  countQuery :: string
  params :: "jsval list"

definition initial :: built where
  "initial = \<lparr>query = ''SELECT * FROM products WHERE 1=1'',
              countQuery = ''SELECT COUNT(*) as total FROM products WHERE 1=1'',
              params = []\<rparr>"

definition addCategory :: "request \<Rightarrow> built \<Rightarrow> built" where
  "addCategory req b =
     (if truthy (req_category req) then
        b\<lparr>query := query b @ '' AND category LIKE ?'',
          countQuery := countQuery b @ '' AND category LIKE ?'',
          params := params b @ [JStr (''%'' @ the (req_category req) @ ''%'')]\<rparr>
      else b)"

definition addSearch :: "request \<Rightarrow> built \<Rightarrow> built" where
  "addSearch req b =
     (if truthy (req_search req) then
        (let searchTerm = JStr (''%'' @ the (req_search req) @ ''%'')
         in b\<lparr>query := query b @ '' AND (name LIKE ? OR description LIKE ? OR code LIKE ?)'',
              countQuery := countQuery b @ '' AND (name LIKE ? OR description LIKE ? OR code LIKE ?)'',
              params := params b @ [searchTerm, searchTerm, searchTerm]\<rparr>)
      else b)"

definition addMinPrice :: "request \<Rightarrow> built \<Rightarrow> built" where
  "addMinPrice req b =
     (if truthy (req_minPrice req) then
        b\<lparr>query := query b @ '' AND unit_price >= ?'',
          countQuery := countQuery b @ '' AND unit_price >= ?'',
          params := params b @ [JNum (parseFloat (the (req_minPrice req)))]\<rparr>
      else b)"

definition addMaxPrice :: "request \<Rightarrow> built \<Rightarrow> built" where
  "addMaxPrice req b =
     (if truthy (req_maxPrice req) then
        b\<lparr>query := query b @ '' AND unit_price <= ?'',
          countQuery := countQuery b @ '' AND unit_price <= ?'',
          params := params b @ [JNum (parseFloat (the (req_maxPrice req)))]\<rparr>
      else b)"

definition validSortColumns :: "string list" where
  "validSortColumns = [''id'', ''name'', ''category'', ''quantity'', ''unit_price'', ''code'']"

definition sortColumn :: "request \<Rightarrow> string" where
  "sortColumn req =
     (let sortBy = (case req_sortBy req of None \<Rightarrow> ''id'' | Some s \<Rightarrow> s)
      in if sortBy \<in> set validSortColumns then sortBy else ''id'')"

definition sortOrder :: "request \<Rightarrow> string" where
  "sortOrder req =
     (let order = (case req_order req of None \<Rightarrow> ''ASC'' | Some s \<Rightarrow> s)
      in if toUpperCase order = ''DESC'' then ''DESC'' else ''ASC'')"

definition buildQuery :: "request \<Rightarrow> built" where
  "buildQuery req =
     (let b = addMaxPrice req (addMinPrice req (addSearch req (addCategory req initial)))
      in b\<lparr>query := query b @ '' ORDER BY '' @ sortColumn req @ '' '' @ sortOrder req
                       @ '' LIMIT ? OFFSET ?''\<rparr>)"

text \<open>
  What the handler hands to the store: \<^verbatim>\<open>db.get(countQuery, params, ...)\<close> and
  \<^verbatim>\<open>db.all(query, [...params, limitNum, offset], ...)\<close>.
\<close>

definition countCall :: "request \<Rightarrow> string \<times> jsval list" where
  "countCall req = (countQuery (buildQuery req), params (buildQuery req))"

definition pageCall :: "request \<Rightarrow> string \<times> jsval list" where
  "pageCall req =
     (query (buildQuery req),
      params (buildQuery req) @ [JNum (limitNum req), JNum (offset req)])"

subsection \<open>The products table and the store\<close>

text \<open>
  A row of \<^verbatim>\<open>products\<close> (\<^verbatim>\<open>CREATE TABLE\<close> in scripts/init-db.js): only
  \<^verbatim>\<open>description\<close> may be NULL; the two timestamps are the text SQLite's
  \<^verbatim>\<open>CURRENT_TIMESTAMP\<close> gives. The table is the list of its rows in insertion order.
\<close>

type_synonym timestamp = string

record product =
  row_id :: string
  row_category :: string
  row_name :: string
  row_description :: "string option"
  row_quantity :: int
  row_unit_price :: rat
  row_code :: string
  row_created_at :: timestamp
  row_updated_at :: timestamp

type_synonym table = "product list"

text \<open>
  The numbers of a row. The driver binds a JavaScript number as a double and hands a
  column back as a double: the price and the quantity of a row are the doubles nearest
  to the values held in the record. A whole double strictly between \<open>-2^63\<close> and
  \<open>2^63\<close> is kept by the INTEGER column \<^verbatim>\<open>quantity\<close> as an integer, any other as a REAL.
\<close>

definition unitPriceOf :: "product \<Rightarrow> rat" where
  "unitPriceOf row = roundDouble (row_unit_price row)"

definition quantityOf :: "product \<Rightarrow> rat" where
  "quantityOf row = roundDouble (of_int (row_quantity row))"


text \<open>
  The values the driver binds to the \<^verbatim>\<open>?\<close> placeholders: a string as TEXT, a number
  as a numeric value, and \<^verbatim>\<open>NaN\<close> as NULL (SQLite stores no NaN).
\<close>

datatype sqlval = SNull | SNum number | SText string

definition bind :: "jsval \<Rightarrow> sqlval" where
  "bind v = (case v of JStr s \<Rightarrow> SText s | JNum NaN \<Rightarrow> SNull | JNum x \<Rightarrow> SNum x)"

text \<open>
  \<open>SqlError\<close>: SQLite rejects the statement. \<open>Unmodelled\<close>: the statement or an operand
  is outside the part of SQLite given a meaning here; the handlers below never get it
  (\<open>listProducts_eq\<close>).
\<close>

datatype dberror = SqlError | Unmodelled

text \<open>
  \<^verbatim>\<open>X LIKE pattern\<close>: \<^verbatim>\<open>%\<close> matches any run of characters, \<^verbatim>\<open>_\<close> any one
  character, and letters match without regard to case. First argument: the pattern.
\<close>

fun like :: "string \<Rightarrow> string \<Rightarrow> bool" where
  "like [] [] = True"
| "like [] (c # cs) = False"
| "like (p # ps) [] = (p = CHR ''%'' \<and> like ps [])"
| "like (p # ps) (c # cs) =
     (if p = CHR ''%'' then like ps (c # cs) \<or> like (p # ps) cs
      else if p = CHR ''_'' then like ps cs
      else toUpperChar p = toUpperChar c \<and> like ps cs)"

text \<open>
  The clauses the WHERE text may hold after \<^verbatim>\<open>1=1\<close>, each read off its text.
\<close>

datatype cond = CategoryLike | SearchLike | PriceGe | PriceLe

function parseConds :: "string \<Rightarrow> cond list \<times> string" where
  "parseConds s =
     (case stripPrefix '' AND category LIKE ?'' s of
        Some r \<Rightarrow> (case parseConds r of (cs, t) \<Rightarrow> (CategoryLike # cs, t))
      | None \<Rightarrow>
     (case stripPrefix '' AND (name LIKE ? OR description LIKE ? OR code LIKE ?)'' s of
        Some r \<Rightarrow> (case parseConds r of (cs, t) \<Rightarrow> (SearchLike # cs, t))
      | None \<Rightarrow>
     (case stripPrefix '' AND unit_price >= ?'' s of
        Some r \<Rightarrow> (case parseConds r of (cs, t) \<Rightarrow> (PriceGe # cs, t))
      | None \<Rightarrow>
     (case stripPrefix '' AND unit_price <= ?'' s of
        Some r \<Rightarrow> (case parseConds r of (cs, t) \<Rightarrow> (PriceLe # cs, t))
      | None \<Rightarrow> ([], s)))))"
  by pat_completeness auto
termination
proof (relation "measure length")
  have len: "length s = length p + length r" if "stripPrefix p s = Some r" for p s r
    using that by (induction p s rule: stripPrefix.induct) (auto split: if_splits)
  show "wf (measure length)" by simp
  show "(r, s) \<in> measure length" if "stripPrefix '' AND category LIKE ?'' s = Some r" for s r
    using len [OF that] by simp
  show "(r, s) \<in> measure length"
    if "stripPrefix '' AND (name LIKE ? OR description LIKE ? OR code LIKE ?)'' s = Some r" for s r
    using len [OF that] by simp
  show "(r, s) \<in> measure length" if "stripPrefix '' AND unit_price >= ?'' s = Some r" for s r
    using len [OF that] by simp
  show "(r, s) \<in> measure length" if "stripPrefix '' AND unit_price <= ?'' s = Some r" for s r
    using len [OF that] by simp
qed

declare parseConds.simps [simp del]

text \<open>
  A placeholder with no parameter left is NULL; the next parameter and the rest.
\<close>

definition nextParam :: "sqlval list \<Rightarrow> sqlval \<times> sqlval list" where
  "nextParam ps = (case ps of [] \<Rightarrow> (SNull, []) | p # ps' \<Rightarrow> (p, ps'))"

text \<open>
  Whether \<^verbatim>\<open>X LIKE ?\<close> is TRUE; a NULL on either side makes it NULL, not TRUE.
\<close>

definition likeParam :: "string option \<Rightarrow> sqlval \<Rightarrow> dberror + bool" where
  "likeParam x p =
     (case p of
        SText pat \<Rightarrow> Inr (case x of None \<Rightarrow> False | Some t \<Rightarrow> like pat t)
      | SNull \<Rightarrow> Inr False
      | SNum _ \<Rightarrow> Inl Unmodelled)"

text \<open>
  Whether \<^verbatim>\<open>unit_price >= ?\<close> (\<open>ge = True\<close>) or \<^verbatim>\<open>unit_price <= ?\<close> is TRUE.
\<close>

definition priceParam :: "bool \<Rightarrow> rat \<Rightarrow> sqlval \<Rightarrow> dberror + bool" where
  "priceParam ge x p =
     (case p of
        SNull \<Rightarrow> Inr False
      | SNum NaN \<Rightarrow> Inr False
      | SNum NegInfinity \<Rightarrow> Inr ge
      | SNum PosInfinity \<Rightarrow> Inr (\<not> ge)
      | SNum (Finite b) \<Rightarrow> Inr (if ge then b \<le> x else x \<le> b)
      | SText _ \<Rightarrow> Inl Unmodelled)"

text \<open>
  Whether a row satisfies one clause, given the parameters not yet used; the parameters
  left over are returned.
\<close>

definition condHolds :: "cond \<Rightarrow> sqlval list \<Rightarrow> product \<Rightarrow> dberror + bool" where
  "condHolds c ps row =
     (case c of
        CategoryLike \<Rightarrow> likeParam (Some (row_category row)) (fst (nextParam ps))
      | SearchLike \<Rightarrow>
          (let (p1, r1) = nextParam ps; (p2, r2) = nextParam r1; (p3, r3) = nextParam r2
           in case likeParam (Some (row_name row)) p1 of
                Inl e \<Rightarrow> Inl e
              | Inr a \<Rightarrow>
             (case likeParam (row_description row) p2 of
                Inl e \<Rightarrow> Inl e
              | Inr b \<Rightarrow>
             (case likeParam (Some (row_code row)) p3 of
                Inl e \<Rightarrow> Inl e
              | Inr c \<Rightarrow> Inr (a \<or> b \<or> c))))
      | PriceGe \<Rightarrow> priceParam True (unitPriceOf row) (fst (nextParam ps))
      | PriceLe \<Rightarrow> priceParam False (unitPriceOf row) (fst (nextParam ps)))"

definition condArity :: "cond \<Rightarrow> nat" where
  "condArity c = (case c of SearchLike \<Rightarrow> 3 | _ \<Rightarrow> 1)"

text \<open>
  Whether a row satisfies \<^verbatim>\<open>1=1 AND c1 AND ... AND cn\<close>: every clause is TRUE.
\<close>

fun whereHolds :: "cond list \<Rightarrow> sqlval list \<Rightarrow> product \<Rightarrow> dberror + bool" where
  "whereHolds [] ps row = Inr True"
| "whereHolds (c # cs) ps row =
     (case condHolds c ps row of
        Inl e \<Rightarrow> Inl e
      | Inr a \<Rightarrow>
     (case whereHolds cs (drop (condArity c) ps) row of
        Inl e \<Rightarrow> Inl e
      | Inr b \<Rightarrow> Inr (a \<and> b)))"

fun selectRows :: "cond list \<Rightarrow> sqlval list \<Rightarrow> table \<Rightarrow> dberror + table" where
  "selectRows cs ps [] = Inr []"
| "selectRows cs ps (row # rows) =
     (case whereHolds cs ps row of
        Inl e \<Rightarrow> Inl e
      | Inr keep \<Rightarrow>
     (case selectRows cs ps rows of
        Inl e \<Rightarrow> Inl e
      | Inr sel \<Rightarrow> Inr (if keep then row # sel else sel)))"

definition placeholders :: "cond list \<Rightarrow> nat" where
  "placeholders cs = sum_list (map condArity cs)"

text \<open>
  \<^verbatim>\<open>ORDER BY column direction\<close>. TEXT columns compare byte by byte, NULL sorts first.
  SQL leaves the order of rows with equal keys to the engine (SQLite gives them in the
  order of the index or of the scan it chose). That choice is a parameter: \<open>tie col dir\<close>
  ranks the rows, and rows with equal keys come by ascending rank, whatever the
  direction; rows of equal rank come in the order of insertion.

  \<open>sortByColumn\<close> sorts by the column, ascending, keeping rows with equal keys in the
  order they come in.
\<close>

type_synonym tiebreak = "string \<Rightarrow> string \<Rightarrow> product \<Rightarrow> nat"

definition sortByColumn :: "string \<Rightarrow> table \<Rightarrow> table option" where
  "sortByColumn col rows =
     (if col = ''id'' then Some (sort_key row_id rows)
      else if col = ''category'' then Some (sort_key row_category rows)
      else if col = ''name'' then Some (sort_key row_name rows)
      else if col = ''description'' then Some (sort_key row_description rows)
      else if col = ''quantity'' then Some (sort_key quantityOf rows)
      else if col = ''unit_price'' then Some (sort_key unitPriceOf rows)
      else if col = ''code'' then Some (sort_key row_code rows)
      else if col = ''created_at'' then Some (sort_key row_created_at rows)
      else if col = ''updated_at'' then Some (sort_key row_updated_at rows)
      else None)"

definition orderRows :: "tiebreak \<Rightarrow> string \<Rightarrow> string \<Rightarrow> table \<Rightarrow> dberror + table" where
  "orderRows tie col dir rows =
     (let ranked = sort_key (tie col dir) rows
      in if dir = ''ASC'' then
           (case sortByColumn col ranked of None \<Rightarrow> Inl SqlError | Some ordered \<Rightarrow> Inr ordered)
         else if dir = ''DESC'' then
           (case sortByColumn col (rev ranked) of
              None \<Rightarrow> Inl SqlError
            | Some ordered \<Rightarrow> Inr (rev ordered))
         else Inl Unmodelled)"

text \<open>
  The tail \<^verbatim>\<open> ORDER BY column direction LIMIT ? OFFSET ?\<close> of the page query: the
  column and the direction.
\<close>

definition parseOrderLimit :: "string \<Rightarrow> (string \<times> string) option" where
  "parseOrderLimit t =
     (case stripPrefix '' ORDER BY '' t of
        None \<Rightarrow> None
      | Some r \<Rightarrow>
     (case stripPrefix '' '' (dropWhile (\<lambda>c. c \<noteq> CHR '' '') r) of
        None \<Rightarrow> None
      | Some r' \<Rightarrow>
          if dropWhile (\<lambda>c. c \<noteq> CHR '' '') r' = '' LIMIT ? OFFSET ?''
          then Some (takeWhile (\<lambda>c. c \<noteq> CHR '' '') r, takeWhile (\<lambda>c. c \<noteq> CHR '' '') r')
          else None))"

text \<open>
  \<^verbatim>\<open>LIMIT ? OFFSET ?\<close>: both must be 64-bit integers. SQLite takes a double that is
  whole and strictly between \<open>-2^63\<close> and \<open>2^63\<close>; for any other double, an infinity
  or NULL it fails with \<^verbatim>\<open>SQLITE_MISMATCH\<close> (datatype mismatch). A negative offset is no
  offset, a negative limit is no limit.
\<close>

definition mustBeInt :: "sqlval \<Rightarrow> dberror + int" where
  "mustBeInt p =
     (case p of
        SNum (Finite r) \<Rightarrow>
          if of_int \<lfloor>r\<rfloor> = r \<and> - (2 ^ 63) < r \<and> r < 2 ^ 63 then Inr \<lfloor>r\<rfloor> else Inl SqlError
      | SNum _ \<Rightarrow> Inl SqlError
      | SNull \<Rightarrow> Inl SqlError
      | SText _ \<Rightarrow> Inl Unmodelled)"

definition limitOffset :: "int \<Rightarrow> int \<Rightarrow> table \<Rightarrow> table" where
  "limitOffset lmt ofs rows =
     (let rest = drop (nat ofs) rows in if lmt < 0 then rest else take (nat lmt) rest)"

text \<open>
  \<^verbatim>\<open>db.get(sql, params, callback)\<close> on a count query: the \<^verbatim>\<open>total\<close> of the one row
  it yields. More parameters than placeholders is an error of the driver.
\<close>

definition db_get :: "table \<Rightarrow> string \<Rightarrow> jsval list \<Rightarrow> dberror + int" where
  "db_get db sql ps =
     (case stripPrefix ''SELECT COUNT(*) as total FROM products WHERE 1=1'' sql of
        None \<Rightarrow> Inl Unmodelled
      | Some w \<Rightarrow>
     (case parseConds w of
        (cs, t) \<Rightarrow>
          if t \<noteq> [] then Inl Unmodelled
          else if placeholders cs < length ps then Inl SqlError
          else
            (case selectRows cs (map bind ps) db of
               Inl e \<Rightarrow> Inl e
             | Inr sel \<Rightarrow> Inr (int (length sel)))))"

text \<open>\<^verbatim>\<open>db.all(sql, params, callback)\<close> on a page query: the rows.\<close>

definition db_all :: "tiebreak \<Rightarrow> table \<Rightarrow> string \<Rightarrow> jsval list \<Rightarrow> dberror + table" where
  "db_all tie db sql ps =
     (case stripPrefix ''SELECT * FROM products WHERE 1=1'' sql of
        None \<Rightarrow> Inl Unmodelled
      | Some w \<Rightarrow>
     (case parseConds w of
        (cs, t) \<Rightarrow>
     (case parseOrderLimit t of
        None \<Rightarrow> Inl Unmodelled
      | Some (col, dir) \<Rightarrow>
          if placeholders cs + 2 < length ps then Inl SqlError
          else
            (case selectRows cs (map bind ps) db of
               Inl e \<Rightarrow> Inl e
             | Inr sel \<Rightarrow>
            (case orderRows tie col dir sel of
               Inl e \<Rightarrow> Inl e
             | Inr ordered \<Rightarrow>
                 (let (p1, r1) = nextParam (drop (placeholders cs) (map bind ps));
                      (p2, r2) = nextParam r1
                  in case mustBeInt p1 of
                       Inl e \<Rightarrow> Inl e
                     | Inr lmt \<Rightarrow>
                    (case mustBeInt p2 of
                       Inl e \<Rightarrow> Inl e
                     | Inr ofs \<Rightarrow> Inr (limitOffset lmt ofs ordered))))))))"

subsection \<open>GET /api/products: the handler\<close>

record pagination =
  pg_page :: number
  pg_limit :: number
  pg_total :: number
  pg_totalPages :: number

datatype list_body =
  ProductsPage (body_products: table) (body_pagination: pagination)
| ListError string

text \<open>
  The handler: the count query, then the page query, then the JSON answer; an error of
  either query is answered with status 500. The first component is the HTTP status.
  The count comes back as a JavaScript number.
\<close>

definition listProducts :: "tiebreak \<Rightarrow> table \<Rightarrow> request \<Rightarrow> nat \<times> list_body" where
  "listProducts tie db req =
     (case db_get db (fst (countCall req)) (snd (countCall req)) of
        Inl err \<Rightarrow> (500, ListError ''Failed to fetch products'')
      | Inr countResult \<Rightarrow>
          (let total' = toDouble (of_int countResult);
               totalPages = mathCeil (jsDiv total' (limitNum req))
           in case db_all tie db (fst (pageCall req)) (snd (pageCall req)) of
                Inl err \<Rightarrow> (500, ListError ''Failed to fetch products'')
              | Inr rows \<Rightarrow>
                  (200, ProductsPage rows
                     \<lparr>pg_page = pageNum req, pg_limit = limitNum req,
                      pg_total = total', pg_totalPages = totalPages\<rparr>)))"

subsection \<open>GET /api/statistics\<close>














text \<open>The decimal digits of a natural number.\<close>

function digitsOf :: "nat \<Rightarrow> string" where
  "digitsOf n =
     (if n < 10 then [''0123456789'' ! n]
      else digitsOf (n div 10) @ [''0123456789'' ! (n mod 10)])"
  by pat_completeness auto
termination
  by (relation "measure id") auto

declare digitsOf.simps [simp del]







subsection \<open>GET /api/products/export/csv\<close>

text \<open>\<^verbatim>\<open>Array.prototype.join\<close>.\<close>

fun join :: "string \<Rightarrow> string list \<Rightarrow> string" where
  "join sep [] = []"
| "join sep [x] = x"
| "join sep (x # y # ys) = x @ sep @ join sep (y # ys)"

text \<open>\<^verbatim>\<open>.replace(/"/g, '""')\<close>: every double quote, left to right, becomes two.\<close>

fun replaceQuotes :: "string \<Rightarrow> string" where
  "replaceQuotes [] = []"
| "replaceQuotes (c # cs) =
     (if c = CHR 0x22 then CHR 0x22 # CHR 0x22 # replaceQuotes cs else c # replaceQuotes cs)"

definition headers :: "string list" where
  "headers = [''ID'', ''Category'', ''Name'', ''Description'', ''Quantity'', ''Unit Price'', ''Code'']"

text \<open>
  The values of one row. \<open>numberToString\<close> is the text JavaScript gives a number when
  it joins it into a string, a parameter here.
\<close>

definition csvValues :: "(rat \<Rightarrow> string) \<Rightarrow> product \<Rightarrow> string list" where
  "csvValues numberToString row =
     [row_id row,
      [CHR 0x22] @ row_category row @ [CHR 0x22],
      [CHR 0x22] @ row_name row @ [CHR 0x22],
      [CHR 0x22] @ replaceQuotes (case row_description row of None \<Rightarrow> [] | Some d \<Rightarrow> d) @ [CHR 0x22],
      numberToString (quantityOf row),
      numberToString (unitPriceOf row),
      row_code row]"

text \<open>
  The handler: \<^verbatim>\<open>SELECT * FROM products ORDER BY id\<close>, then one line for the headers
  and one for each row, joined by line feeds.
\<close>

definition exportCsv :: "(rat \<Rightarrow> string) \<Rightarrow> table \<Rightarrow> nat \<times> string" where
  "exportCsv numberToString db =
     (let rows = sort_key row_id db;
          csvRows = [join '','' headers] @ map (\<lambda>row. join '','' (csvValues numberToString row)) rows
      in (200, join [CHR 0x0A] csvRows))"

subsection \<open>Validation of a product body\<close>

text \<open>
  \<^verbatim>\<open>req.body\<close>: a text field is absent or a string, a numeric field is absent or a
  JSON number.
\<close>

record body =
  body_id :: "string option"
  body_category :: "string option"
  body_name :: "string option"
  body_description :: "string option"
  body_quantity :: "rat option"
  body_unit_price :: "rat option"
  body_code :: "string option"

text \<open>
  The \<^verbatim>\<open>trim()\<close> sanitizer: an absent value is read as the empty string, white space
  is removed at both ends, and the result replaces the field in \<^verbatim>\<open>req.body\<close>.
\<close>

definition trim :: "string option \<Rightarrow> string" where
  "trim x =
     (let s = (case x of None \<Rightarrow> [] | Some v \<Rightarrow> v)
      in rev (dropWhile isWhiteSpace (rev (dropWhile isWhiteSpace s))))"

text \<open>\<^verbatim>\<open>matches(/^\d{3}-\d{2}$/)\<close>\<close>

definition matchesId :: "string \<Rightarrow> bool" where
  "matchesId s =
     (case s of
        [a, b, c, d, e, f] \<Rightarrow>
          isRadixDigit 10 a \<and> isRadixDigit 10 b \<and> isRadixDigit 10 c \<and> d = CHR ''-''
          \<and> isRadixDigit 10 e \<and> isRadixDigit 10 f
      | _ \<Rightarrow> False)"

text \<open>
  \<^verbatim>\<open>isInt({ min: 0 })\<close> and \<^verbatim>\<open>isFloat({ min: 0 })\<close> read the text of the value: an
  absent value is the empty string, which is neither; the text of a number from
  \<open>10^21\<close> on is in exponential notation, which is no integer.
\<close>

definition isInt :: "rat option \<Rightarrow> bool" where
  "isInt x = (case x of None \<Rightarrow> False | Some r \<Rightarrow> of_int \<lfloor>r\<rfloor> = r \<and> 0 \<le> r \<and> r < 10 ^ 21)"

definition isFloat :: "rat option \<Rightarrow> bool" where
  "isFloat x = (case x of None \<Rightarrow> False | Some r \<Rightarrow> 0 \<le> r)"

text \<open>
  \<^verbatim>\<open>validateProduct\<close>: the messages of the checks that fail, in the order of the
  chain. The \<^verbatim>\<open>description\<close> chain is \<^verbatim>\<open>optional()\<close>: it is skipped when the field is
  absent.
\<close>

definition validateProduct :: "body \<Rightarrow> string list" where
  "validateProduct b =
     (if matchesId (trim (body_id b)) then [] else [''ID must be in format XXX-XX'']) @
     (if 1 \<le> length (trim (body_category b)) \<and> length (trim (body_category b)) \<le> 100 then []
      else [''Category is required and must be less than 100 characters'']) @
     (if 1 \<le> length (trim (body_name b)) \<and> length (trim (body_name b)) \<le> 200 then []
      else [''Name is required and must be less than 200 characters'']) @
     (if body_description b = None \<or> length (trim (body_description b)) \<le> 1000 then []
      else [''Description must be less than 1000 characters'']) @
     (if isInt (body_quantity b) then [] else [''Quantity must be a non-negative integer'']) @
     (if isFloat (body_unit_price b) then [] else [''Unit price must be a non-negative number'']) @
     (if 1 \<le> length (trim (body_code b)) \<and> length (trim (body_code b)) \<le> 50 then []
      else [''Code is required and must be less than 50 characters''])"

text \<open>The body the handler sees after the sanitizers ran.\<close>

definition sanitized :: "body \<Rightarrow> body" where
  "sanitized b =
     b\<lparr>body_id := Some (trim (body_id b)),
       body_category := Some (trim (body_category b)),
       body_name := Some (trim (body_name b)),
       body_description := (if body_description b = None then None else Some (trim (body_description b))),
       body_code := Some (trim (body_code b))\<rparr>"

text \<open>\<^verbatim>\<open>validateId\<close>: the path parameter, not trimmed.\<close>

definition validateId :: "string \<Rightarrow> string list" where
  "validateId ident = (if matchesId ident then [] else [''Invalid ID format''])"

datatype reply =
  IdMessage string string
| ErrorMessage string
| ValidationErrors "string list"

subsection \<open>POST /api/products\<close>

text \<open>
  \<^verbatim>\<open>INSERT INTO products (id, category, name, description, quantity, unit_price, code)
  VALUES (?, ?, ?, ?, ?, ?, ?)\<close>: \<^verbatim>\<open>id\<close> is the primary key, so a second row with the
  same id is refused; both timestamps default to the clock of the store.
\<close>

type_synonym fields = "string \<times> string \<times> string \<times> string option \<times> int \<times> rat \<times> string"

definition sql_insert :: "timestamp \<Rightarrow> table \<Rightarrow> fields \<Rightarrow> dberror + table" where
  "sql_insert now db f =
     (case f of
        (ident, category, name, description, quantity, unit_price, code) \<Rightarrow>
          if ident \<in> set (map row_id db) then Inl SqlError
          else Inr (db @ [\<lparr>row_id = ident, row_category = category, row_name = name,
                          row_description = description, row_quantity = quantity,
                          row_unit_price = unit_price, row_code = code,
                          row_created_at = now, row_updated_at = now\<rparr>]))"

text \<open>
  The handler, after \<^verbatim>\<open>validateProduct\<close> and \<^verbatim>\<open>handleValidationErrors\<close>. The result
  is the answer (status and JSON) and the table afterwards. \<^verbatim>\<open>!x\<close> holds of an absent
  or empty text and of an absent or zero number.
\<close>

definition postProduct :: "timestamp \<Rightarrow> table \<Rightarrow> body \<Rightarrow> (nat \<times> reply) \<times> table" where
  "postProduct now db req_body =
     (if validateProduct req_body \<noteq> [] then ((400, ValidationErrors (validateProduct req_body)), db)
      else
        (let b = sanitized req_body
         in if falsy (body_id b) \<or> falsy (body_category b) \<or> falsy (body_name b)
               \<or> falsy (body_description b) \<or> body_quantity b = None
               \<or> body_unit_price b = None \<or> body_unit_price b = Some 0 \<or> falsy (body_code b)
            then ((400, ErrorMessage ''Missing required fields''), db)
            else
              (case sql_insert now db
                      (the (body_id b), the (body_category b), the (body_name b), body_description b,
                       \<lfloor>the (body_quantity b)\<rfloor>, the (body_unit_price b), the (body_code b)) of
                 Inl err \<Rightarrow> ((500, ErrorMessage ''Failed to create product''), db)
               | Inr db' \<Rightarrow>
                   ((201, IdMessage (the (body_id b)) ''Product created successfully''), db'))))"

subsection \<open>PUT /api/products/:id\<close>

text \<open>
  \<^verbatim>\<open>UPDATE products SET category = ?, name = ?, description = ?, quantity = ?,
  unit_price = ?, code = ? WHERE id = ?\<close>: the table afterwards and the number of rows
  changed. The clock of the store, \<open>now\<close>, is not part of the statement, and the table has
  no trigger.
\<close>

definition sql_update ::
  "timestamp \<Rightarrow> table \<Rightarrow> string \<times> string \<times> string option \<times> int \<times> rat \<times> string \<Rightarrow> string
     \<Rightarrow> table \<times> nat" where
  "sql_update now db f ident =
     (case f of
        (category, name, description, quantity, unit_price, code) \<Rightarrow>
          (map (\<lambda>row. if row_id row = ident
                       then row\<lparr>row_category := category, row_name := name,
                                row_description := description, row_quantity := quantity,
                                row_unit_price := unit_price, row_code := code\<rparr>
                       else row) db,
           length (filter (\<lambda>row. row_id row = ident) db)))"

text \<open>
  The handler, after \<^verbatim>\<open>validateId\<close>, \<^verbatim>\<open>validateProduct\<close> and
  \<^verbatim>\<open>handleValidationErrors\<close>. An absent \<^verbatim>\<open>description\<close> is bound as NULL.
\<close>

definition putProduct ::
  "timestamp \<Rightarrow> table \<Rightarrow> string \<Rightarrow> body \<Rightarrow> (nat \<times> reply) \<times> table" where
  "putProduct now db ident req_body =
     (if validateId ident @ validateProduct req_body \<noteq> []
      then ((400, ValidationErrors (validateId ident @ validateProduct req_body)), db)
      else
        (let b = sanitized req_body;
             (db', changes) =
               sql_update now db
                 (the (body_category b), the (body_name b), body_description b,
                  \<lfloor>the (body_quantity b)\<rfloor>, the (body_unit_price b), the (body_code b)) ident
         in if changes = 0 then ((404, ErrorMessage ''Product not found''), db')
            else ((200, IdMessage ident ''Product updated successfully''), db')))"

subsection \<open>The reference dataset (scripts/seed-db.js)\<close>

definition products :: "fields list" where
  "products =
     [(''000-01'', ''clothing'', ''bohoo clothes'',
       Some ''It's time to be the MAN! Discover boohooMAN's logo collection and fill up your wardrobe with these exclusive MAN branded items. Discover the MAN logo hoodies, the t-shirts, the tracksuits, the accessories (and much, much more) and add some attitude to your casual outfit.'',
       300, 30, ''000-01''),
      (''000-02'', ''footwear'', ''shoes'',
       Some ''Step into the party season in style with our exclusive selection of men's smart shoes. From the classic real leather cap brogues to the trendy heavy soled tassel loafers, whether it's a special event or a day in the office, this collection will impeccably complement any smart outfit and make you look dapper.'',
       115, 118, ''000-02''),
      (''000-03'', ''Accessories'', ''rings'',
       Some ''finish off your outfit with a cool piece of men's jewellery from boohooMAN's collection of jewellery and watches for men. Choose from loads of uber-trendy accessories including men's rings'',
       218, 74, ''000-03''),
      (''000-04'', ''clothing'', ''shirts'',
       Some ''Level up your shirt game with our extensive range of shirts in long and short sleeve styles! Whether you're looking for a classic Oxford shirt, or a check shirt, a cool but casual print or a go-to denim, we've got all the staples a man's wardrobe needs'',
       164, 69, ''000-04''),
      (''000-05'', ''clothing'', ''jackets'',
       Some ''A good coat is the backbone of any man's wardrobe, and with a huge range of men's puffers, macs, bombers, parkas, and more, we're here to ensure your outerwear is on-point through rain, hail, sleet, or shine.'',
       97, 198, ''000-05''),
      (''000-06'', ''Clothing'', ''Trousers'',
       Some ''neeed some trousers for every season go to boohoomans website and get one.'',
       59, 98, ''000-06''),
      (''000-07'', ''Clothing'', ''boohoo Hoodie'',
       Some ''THoodie or sweatshirt? No need to choose: our selection of men's tops includes a variety of hoodies and sweatshirts available in different colours, styles and fits. Both hoodies and sweatshirts are must-haves in every man's casual wardrobe, and very versatile pieces of clothing.'',
       100, 60, ''000-07''),
      (''000-08'', ''Casual wear'', ''sunglasses'',
       Some ''Choosing the right pair of men's sunglasses is a must and it needs to be done right. boohooMAN have trendy but affordable sunglasses for men that are only a click away!.'',
       100, 45, ''000-08''),
      (''000-09'', ''Casual wear'', ''belts'',
       Some ''Get some serious style skills under your belt with boohooMAN's range of men's belts! Whether you want to complement your everyday look or add the finishing touch to your smart outfit, our selection of real and faux leather belts is just all you need to wear.'',
       173, 60, ''000-09''),
      (''000-10'', ''Bags'', ''casual wear'',
       Some ''Too much stuff to carry around? Worry no more...boohooMAN's new range of men's bags and men's wallets is here to give your hands a break! Check out our extensive selection of MAN embroidered men's bags, cross body bags, holdalls and much, much more.'',
       138, 40, ''000-10'')]"


subsection \<open>The fixtures of the API tests\<close>

text \<open>
  The table of the tests holds one row, inserted when the store's clock shows \<open>now\<close>;
  \<^verbatim>\<open>newProduct\<close> is the body the tests post.
\<close>

definition testTable :: "timestamp \<Rightarrow> table" where
  "testTable now =
     [\<lparr>row_id = ''000-01'', row_category = ''clothing'', row_name = ''Test Product'',
       row_description = Some ''Test Description'', row_quantity = 100, row_unit_price = 50,
       row_code = ''000-01'', row_created_at = now, row_updated_at = now\<rparr>]"

definition newProduct :: body where
  "newProduct =
     \<lparr>body_id = Some ''000-99'', body_category = Some ''test'', body_name = Some ''New Test Product'',
      body_description = Some ''Test Description'', body_quantity = Some 50,
      body_unit_price = Some 25, body_code = Some ''000-99''\<rparr>"

text \<open>The table of the tests once \<^verbatim>\<open>newProduct\<close> has been posted, a day later.\<close>

definition twoProducts :: table where
  "twoProducts =
     snd (postProduct ''2024-01-02 00:00:00'' (testTable ''2024-01-01 00:00:00'') newProduct)"

subsection \<open>The specification's words, for comparison with the code\<close>

text \<open>
  The predicate list of the specification: each present, non-empty filter field gives
  one clause, with the parameters bound to its placeholders.
\<close>

definition predicateList :: "request \<Rightarrow> (string \<times> jsval list) list" where
  "predicateList req =
     (if truthy (req_category req)
      then [(''category LIKE ?'', [JStr (''%'' @ the (req_category req) @ ''%'')])] else []) @
     (if truthy (req_search req)
      then [(''(name LIKE ? OR description LIKE ? OR code LIKE ?)'',
             replicate 3 (JStr (''%'' @ the (req_search req) @ ''%'')))] else []) @
     (if truthy (req_minPrice req)
      then [(''unit_price >= ?'', [JNum (parseFloat (the (req_minPrice req)))])] else []) @
     (if truthy (req_maxPrice req)
      then [(''unit_price <= ?'', [JNum (parseFloat (the (req_maxPrice req)))])] else [])"

text \<open>The WHERE clause of a predicate list, and its parameter array.\<close>

definition whereClause :: "(string \<times> jsval list) list \<Rightarrow> string" where
  "whereClause preds = ''1=1'' @ concat (map (\<lambda>p. '' AND '' @ fst p) preds)"

definition parameterArray :: "(string \<times> jsval list) list \<Rightarrow> jsval list" where
  "parameterArray preds = concat (map snd preds)"

text \<open>
  Whether a row passes the filters of a request: substring matches for
  \<^verbatim>\<open>category\<close> and \<^verbatim>\<open>search\<close>, inclusive bounds for the prices; a bound that is not
  a number admits no row.
\<close>

definition matches :: "request \<Rightarrow> product \<Rightarrow> bool" where
  "matches req row =
     ((if truthy (req_category req)
       then like (''%'' @ the (req_category req) @ ''%'') (row_category row) else True) \<and>
      (if truthy (req_search req)
       then like (''%'' @ the (req_search req) @ ''%'') (row_name row)
            \<or> (case row_description row of
                  None \<Rightarrow> False
                | Some d \<Rightarrow> like (''%'' @ the (req_search req) @ ''%'') d)
            \<or> like (''%'' @ the (req_search req) @ ''%'') (row_code row)
       else True) \<and>
      (if truthy (req_minPrice req)
       then (case parseFloat (the (req_minPrice req)) of
               NaN \<Rightarrow> False | NegInfinity \<Rightarrow> True | PosInfinity \<Rightarrow> False
             | Finite b \<Rightarrow> b \<le> unitPriceOf row)
       else True) \<and>
      (if truthy (req_maxPrice req)
       then (case parseFloat (the (req_maxPrice req)) of
               NaN \<Rightarrow> False | NegInfinity \<Rightarrow> False | PosInfinity \<Rightarrow> True
             | Finite b \<Rightarrow> unitPriceOf row \<le> b)
       else True))"



text \<open>
  A number the store takes as a limit or an offset: a whole number strictly between
  \<open>-2^63\<close> and \<open>2^63\<close>; and the integer it is.
\<close>

text \<open>A whole number other than zero, or an infinity.\<close>

definition wholeNotZero :: "number \<Rightarrow> bool" where
  "wholeNotZero x = (case x of NaN \<Rightarrow> False | Finite r \<Rightarrow> of_int \<lfloor>r\<rfloor> = r \<and> r \<noteq> 0 | _ \<Rightarrow> True)"

definition sqlInteger :: "number \<Rightarrow> bool" where
  "sqlInteger x =
     (case x of Finite r \<Rightarrow> of_int \<lfloor>r\<rfloor> = r \<and> - (2 ^ 63) < r \<and> r < 2 ^ 63 | _ \<Rightarrow> False)"

definition integerOf :: "number \<Rightarrow> int" where
  "integerOf x = (case x of Finite r \<Rightarrow> \<lfloor>r\<rfloor> | _ \<Rightarrow> 0)"

text \<open>The rows of the page of a request, out of the ordered rows.\<close>

definition pageOf :: "request \<Rightarrow> table \<Rightarrow> table" where
  "pageOf req ordered = limitOffset (integerOf (limitNum req)) (integerOf (offset req)) ordered"

text \<open>An engine that leaves rows with equal keys in the order of insertion.\<close>

definition insertionOrder :: tiebreak where
  "insertionOrder col dir row = 0"





text \<open>
  A CSV field as the specification words it: wrapped in double quotes, every double
  quote inside doubled.
\<close>

definition quoted :: "string \<Rightarrow> string" where
  "quoted s =
     [CHR 0x22] @ concat (map (\<lambda>c. if c = CHR 0x22 then [CHR 0x22, CHR 0x22] else [c]) s) @ [CHR 0x22]"

text \<open>
  The export as the specification words it: the header row, then one row for each
  record, every text field of it a quoted field.
\<close>

definition csvAsSpecified :: "(rat \<Rightarrow> string) \<Rightarrow> table \<Rightarrow> string" where
  "csvAsSpecified numberToString db =
     join [CHR 0x0A]
       (''ID,Category,Name,Description,Quantity,Unit Price,Code'' #
        map (\<lambda>row. join '',''
               [quoted (row_id row), quoted (row_category row), quoted (row_name row),
                quoted (case row_description row of None \<Rightarrow> [] | Some d \<Rightarrow> d),
                numberToString (quantityOf row), numberToString (unitPriceOf row),
                quoted (row_code row)])
            (sort_key row_id db))"

text \<open>The clauses of a request, as the store reads them off the query text.\<close>

definition condText :: "cond \<Rightarrow> string" where
  "condText c =
     (case c of
        CategoryLike \<Rightarrow> '' AND category LIKE ?''
      | SearchLike \<Rightarrow> '' AND (name LIKE ? OR description LIKE ? OR code LIKE ?)''
      | PriceGe \<Rightarrow> '' AND unit_price >= ?''
      | PriceLe \<Rightarrow> '' AND unit_price <= ?'')"

definition reqConds :: "request \<Rightarrow> cond list" where
  "reqConds req =
     (if truthy (req_category req) then [CategoryLike] else []) @
     (if truthy (req_search req) then [SearchLike] else []) @
     (if truthy (req_minPrice req) then [PriceGe] else []) @
     (if truthy (req_maxPrice req) then [PriceLe] else [])"

text \<open>
  The rows as the store orders them for a request (no row, were the order refused).
\<close>

definition orderedRows :: "tiebreak \<Rightarrow> request \<Rightarrow> table \<Rightarrow> table" where
  "orderedRows tie req rows =
     (case orderRows tie (sortColumn req) (sortOrder req) rows of Inl e \<Rightarrow> [] | Inr ordered \<Rightarrow> ordered)"

section \<open>Properties\<close>

subsection \<open>The queries built for a request\<close>

lemma sel_addCategory:
  "query (addCategory req b) = query b @ (if truthy (req_category req) then condText CategoryLike else [])"
  "countQuery (addCategory req b) = countQuery b @ (if truthy (req_category req) then condText CategoryLike else [])"
  "params (addCategory req b) =
     params b @ (if truthy (req_category req) then [JStr (''%'' @ the (req_category req) @ ''%'')] else [])"
  by (simp_all add: addCategory_def condText_def)

lemma sel_addSearch:
  "query (addSearch req b) = query b @ (if truthy (req_search req) then condText SearchLike else [])"
  "countQuery (addSearch req b) = countQuery b @ (if truthy (req_search req) then condText SearchLike else [])"
  "params (addSearch req b) =
     params b @ (if truthy (req_search req) then replicate 3 (JStr (''%'' @ the (req_search req) @ ''%'')) else [])"
  by (simp_all add: addSearch_def condText_def Let_def numeral_3_eq_3)

lemma sel_addMinPrice:
  "query (addMinPrice req b) = query b @ (if truthy (req_minPrice req) then condText PriceGe else [])"
  "countQuery (addMinPrice req b) = countQuery b @ (if truthy (req_minPrice req) then condText PriceGe else [])"
  "params (addMinPrice req b) =
     params b @ (if truthy (req_minPrice req) then [JNum (parseFloat (the (req_minPrice req)))] else [])"
  by (simp_all add: addMinPrice_def condText_def)

lemma sel_addMaxPrice:
  "query (addMaxPrice req b) = query b @ (if truthy (req_maxPrice req) then condText PriceLe else [])"
  "countQuery (addMaxPrice req b) = countQuery b @ (if truthy (req_maxPrice req) then condText PriceLe else [])"
  "params (addMaxPrice req b) =
     params b @ (if truthy (req_maxPrice req) then [JNum (parseFloat (the (req_maxPrice req)))] else [])"
  by (simp_all add: addMaxPrice_def condText_def)

lemmas sel_add = sel_addCategory sel_addSearch sel_addMinPrice sel_addMaxPrice

lemma condsText: 
  "concat (map condText (reqConds req)) =
     (if truthy (req_category req) then condText CategoryLike else []) @
     (if truthy (req_search req) then condText SearchLike else []) @
     (if truthy (req_minPrice req) then condText PriceGe else []) @
     (if truthy (req_maxPrice req) then condText PriceLe else [])"
  by (simp add: reqConds_def)

lemma query_conds:
  "query (buildQuery req) =
     ''SELECT * FROM products WHERE 1=1'' @ concat (map condText (reqConds req)) @ '' ORDER BY ''
       @ sortColumn req @ '' '' @ sortOrder req @ '' LIMIT ? OFFSET ?''"
  unfolding condsText by (simp add: buildQuery_def Let_def sel_add initial_def split del: if_split)

lemma countQuery_conds:
  "countQuery (buildQuery req) =
     ''SELECT COUNT(*) as total FROM products WHERE 1=1'' @ concat (map condText (reqConds req))"
  unfolding condsText by (simp add: buildQuery_def Let_def sel_add initial_def split del: if_split)

lemma parameterArray_req:
  "parameterArray (predicateList req) =
     (if truthy (req_category req) then [JStr (''%'' @ the (req_category req) @ ''%'')] else []) @
     (if truthy (req_search req) then replicate 3 (JStr (''%'' @ the (req_search req) @ ''%'')) else []) @
     (if truthy (req_minPrice req) then [JNum (parseFloat (the (req_minPrice req)))] else []) @
     (if truthy (req_maxPrice req) then [JNum (parseFloat (the (req_maxPrice req)))] else [])"
  by (simp add: parameterArray_def predicateList_def)

lemma params_buildQuery: "params (buildQuery req) = parameterArray (predicateList req)"
  unfolding parameterArray_req
  by (simp add: buildQuery_def Let_def sel_add initial_def split del: if_split)

lemma whereClause_conds:
  "whereClause (predicateList req) = ''1=1'' @ concat (map condText (reqConds req))"
proof -
  have "concat (map (\<lambda>p. '' AND '' @ fst p) (predicateList req)) = concat (map condText (reqConds req))"
    unfolding condsText by (simp add: predicateList_def condText_def)
  then show ?thesis by (simp add: whereClause_def)
qed

lemma query_buildQuery:
  "query (buildQuery req) =
     ''SELECT * FROM products WHERE '' @ whereClause (predicateList req) @ '' ORDER BY ''
       @ sortColumn req @ '' '' @ sortOrder req @ '' LIMIT ? OFFSET ?''"
  by (simp add: query_conds whereClause_conds)



lemma sortColumn_valid: "sortColumn req \<in> set validSortColumns"
  by (simp add: sortColumn_def validSortColumns_def Let_def split: option.splits)

lemma sortOrder_valid: "sortOrder req = ''ASC'' \<or> sortOrder req = ''DESC''"
  by (simp add: sortOrder_def Let_def)


lemma buildQuery_cong:
  assumes "sortColumn req = sortColumn req'" "sortOrder req = sortOrder req'"
    "req_category req = req_category req'" "req_search req = req_search req'"
    "req_minPrice req = req_minPrice req'" "req_maxPrice req = req_maxPrice req'"
  shows "buildQuery req = buildQuery req'"
  using assms
  by (simp add: buildQuery_def addCategory_def addSearch_def addMinPrice_def addMaxPrice_def
      split del: if_split cong: if_cong)

lemma listProducts_cong:
  assumes "buildQuery r = buildQuery r'" "req_page r = req_page r'" "req_limit r = req_limit r'"
  shows "listProducts tie db r = listProducts tie db r'"
proof -
  have p: "pageNum r = pageNum r'" and l: "limitNum r = limitNum r'"
    using assms by (simp_all add: pageNum_def limitNum_def)
  then have "offset r = offset r'"
    by (simp add: offset_def)
  with assms l have c: "countCall r = countCall r'" and q: "pageCall r = pageCall r'"
    by (simp_all add: countCall_def pageCall_def)
  show ?thesis
    unfolding listProducts_def p l c q by (rule refl)
qed

text \<open>
  C1. A \<^verbatim>\<open>sortBy\<close> outside the six allowed columns builds the queries (and gives the
  answer) of \<^verbatim>\<open>sortBy=id\<close>; an \<^verbatim>\<open>order\<close> that is not \<^verbatim>\<open>DESC\<close> once in upper case
  builds the queries (and gives the answer) of \<^verbatim>\<open>order=ASC\<close>; the column and the
  direction written into the query text are always one of the six columns and one of
  \<^verbatim>\<open>ASC\<close>, \<^verbatim>\<open>DESC\<close>.
\<close>

theorem sort_allow_list:
  "(sortBy \<notin> set validSortColumns \<longrightarrow>
      buildQuery (req\<lparr>req_sortBy := Some sortBy\<rparr>) = buildQuery (req\<lparr>req_sortBy := Some ''id''\<rparr>)
      \<and> listProducts tie db (req\<lparr>req_sortBy := Some sortBy\<rparr>)
          = listProducts tie db (req\<lparr>req_sortBy := Some ''id''\<rparr>))
   \<and> (toUpperCase order \<noteq> ''DESC'' \<longrightarrow>
      buildQuery (req\<lparr>req_order := Some order\<rparr>) = buildQuery (req\<lparr>req_order := Some ''ASC''\<rparr>)
      \<and> listProducts tie db (req\<lparr>req_order := Some order\<rparr>)
          = listProducts tie db (req\<lparr>req_order := Some ''ASC''\<rparr>))
   \<and> sortColumn req \<in> set validSortColumns
   \<and> sortOrder req \<in> {''ASC'', ''DESC''}
   \<and> query (buildQuery req) =
         ''SELECT * FROM products WHERE '' @ whereClause (predicateList req) @ '' ORDER BY ''
           @ sortColumn req @ '' '' @ sortOrder req @ '' LIMIT ? OFFSET ?''"
proof -
  have a: "buildQuery (req\<lparr>req_sortBy := Some sortBy\<rparr>) = buildQuery (req\<lparr>req_sortBy := Some ''id''\<rparr>)"
    if "sortBy \<notin> set validSortColumns"
    using that by (intro buildQuery_cong) (simp_all add: sortColumn_def sortOrder_def validSortColumns_def)
  have b: "buildQuery (req\<lparr>req_order := Some order\<rparr>) = buildQuery (req\<lparr>req_order := Some ''ASC''\<rparr>)"
    if "toUpperCase order \<noteq> ''DESC''"
    using that by (intro buildQuery_cong) (simp_all add: sortColumn_def sortOrder_def toUpperCase_def toUpperChar_def)
  show ?thesis
    using a b
      listProducts_cong [of "req\<lparr>req_sortBy := Some sortBy\<rparr>" "req\<lparr>req_sortBy := Some ''id''\<rparr>" tie db]
      listProducts_cong [of "req\<lparr>req_order := Some order\<rparr>" "req\<lparr>req_order := Some ''ASC''\<rparr>" tie db]
      sortColumn_valid [of req] sortOrder_valid [of req]
    by (simp add: query_buildQuery)
qed

theorem sort_allow_list_witness:
  "''price; DROP TABLE products'' \<notin> set validSortColumns
   \<and> toUpperCase ''up'' \<noteq> ''DESC''
   \<and> buildQuery (noQuery\<lparr>req_sortBy := Some ''price; DROP TABLE products''\<rparr>)
       = buildQuery (noQuery\<lparr>req_sortBy := Some ''id''\<rparr>)
   \<and> buildQuery (noQuery\<lparr>req_order := Some ''up''\<rparr>) = buildQuery (noQuery\<lparr>req_order := Some ''ASC''\<rparr>)"
  using sort_allow_list [where sortBy = "''price; DROP TABLE products''" and order = "''up''"
      and req = noQuery and db = "[]" and tie = insertionOrder]
  by (simp add: validSortColumns_def toUpperCase_def toUpperChar_def)


subsection \<open>What the store answers to the queries of a request\<close>

lemma stripPrefix_append: "stripPrefix p (p @ s) = Some s"
  by (induction p) auto

lemma parseConds_cond:
  "parseConds (condText c @ s) = (c # fst (parseConds s), snd (parseConds s))"
  by (cases c; subst parseConds.simps; simp add: condText_def split: prod.splits)

lemma parseConds_Nil: "parseConds [] = ([], [])"
  by (subst parseConds.simps) simp

lemma parseConds_order: "parseConds ('' ORDER BY '' @ s) = ([], '' ORDER BY '' @ s)"
  by (subst parseConds.simps) simp

lemma parseConds_conds:
  "parseConds t = ([], t) \<Longrightarrow> parseConds (concat (map condText cs) @ t) = (cs, t)"
  by (induction cs) (simp_all add: parseConds_cond)

lemma parseOrderLimit_valid:
  assumes "col \<in> set validSortColumns" and "dir = ''ASC'' \<or> dir = ''DESC''"
  shows "parseOrderLimit ('' ORDER BY '' @ col @ '' '' @ dir @ '' LIMIT ? OFFSET ?'') = Some (col, dir)"
  using assms by (auto simp: validSortColumns_def parseOrderLimit_def)

lemma selectRows_filter:
  "(\<And>row. whereHolds cs ps row = Inr (f row)) \<Longrightarrow> selectRows cs ps db = Inr (filter f db)"
  by (induction db) simp_all


lemma placeholders_req: "placeholders (reqConds req) = length (parameterArray (predicateList req))"
  unfolding parameterArray_req by (simp add: placeholders_def reqConds_def condArity_def)

lemma whereHolds_req:
  "whereHolds (reqConds req) (map bind (parameterArray (predicateList req)) @ extra) row
     = Inr (matches req row)"
  unfolding parameterArray_req
  by (cases "truthy (req_category req)"; cases "truthy (req_search req)";
      cases "truthy (req_minPrice req)"; cases "truthy (req_maxPrice req)")
     (simp_all add: reqConds_def matches_def condHolds_def condArity_def nextParam_def bind_def
        likeParam_def priceParam_def numeral_3_eq_3 split: number.splits option.splits)

lemma selectRows_req:
  "selectRows (reqConds req) (map bind (parameterArray (predicateList req)) @ extra) db
     = Inr (filter (matches req) db)"
  by (rule selectRows_filter) (rule whereHolds_req)

lemma db_get_count:
  "db_get db (fst (countCall req)) (snd (countCall req)) = Inr (int (length (filter (matches req) db)))"
proof -
  have "stripPrefix ''SELECT COUNT(*) as total FROM products WHERE 1=1'' (countQuery (buildQuery req))
          = Some (concat (map condText (reqConds req)))"
    unfolding countQuery_conds by (rule stripPrefix_append)
  moreover have "parseConds (concat (map condText (reqConds req))) = (reqConds req, [])"
    using parseConds_conds [OF parseConds_Nil] by simp
  ultimately show ?thesis
    using selectRows_req [of req "[]" db]
    by (simp add: db_get_def countCall_def params_buildQuery placeholders_req)
qed

text \<open>The store accepts every order the handler asks for.\<close>

lemma orderRows_req:
  "orderRows tie (sortColumn req) (sortOrder req) rows = Inr (orderedRows tie req rows)"
  using sortColumn_valid [of req] sortOrder_valid [of req]
  by (auto simp: orderedRows_def orderRows_def sortByColumn_def validSortColumns_def Let_def)

lemma mset_orderedRows: "mset (orderedRows tie req rows) = mset rows"
  using sortColumn_valid [of req] sortOrder_valid [of req]
  by (auto simp: orderedRows_def orderRows_def sortByColumn_def validSortColumns_def Let_def)


lemma mustBeInt_bind:
  "mustBeInt (bind (JNum x)) = (if sqlInteger x then Inr (integerOf x) else Inl SqlError)"
  by (cases x) (simp_all add: mustBeInt_def bind_def sqlInteger_def integerOf_def)

lemma db_all_page:
  "db_all tie db (fst (pageCall req)) (snd (pageCall req))
     = (if sqlInteger (limitNum req) \<and> sqlInteger (offset req)
        then Inr (pageOf req (orderedRows tie req (filter (matches req) db)))
        else Inl SqlError)"
proof -
  let ?t = "'' ORDER BY '' @ sortColumn req @ '' '' @ sortOrder req @ '' LIMIT ? OFFSET ?''"
  let ?extra = "[bind (JNum (limitNum req)), bind (JNum (offset req))]"
  have "stripPrefix ''SELECT * FROM products WHERE 1=1'' (query (buildQuery req))
          = Some (concat (map condText (reqConds req)) @ ?t)"
    unfolding query_conds by (rule stripPrefix_append)
  moreover have "parseConds (concat (map condText (reqConds req)) @ ?t) = (reqConds req, ?t)"
    by (rule parseConds_conds) (rule parseConds_order)
  moreover have "parseOrderLimit ?t = Some (sortColumn req, sortOrder req)"
    by (rule parseOrderLimit_valid [OF sortColumn_valid sortOrder_valid])
  moreover have "selectRows (reqConds req) (map bind (parameterArray (predicateList req)) @ ?extra) db
      = Inr (filter (matches req) db)"
    by (rule selectRows_req)
  ultimately show ?thesis
    by (simp add: db_all_def pageCall_def params_buildQuery placeholders_req orderRows_req
        nextParam_def mustBeInt_bind pageOf_def del: stripPrefix.simps)
qed

lemma listProducts_eq:
  "listProducts tie db req =
     (if sqlInteger (limitNum req) \<and> sqlInteger (offset req)
      then (200, ProductsPage (pageOf req (orderedRows tie req (filter (matches req) db)))
              \<lparr>pg_page = pageNum req, pg_limit = limitNum req,
               pg_total = toDouble (of_nat (length (filter (matches req) db))),
               pg_totalPages =
                 mathCeil (jsDiv (toDouble (of_nat (length (filter (matches req) db)))) (limitNum req))\<rparr>)
      else (500, ListError ''Failed to fetch products''))"
  by (simp add: listProducts_def db_get_count db_all_page Let_def)

subsection \<open>Rounding to a double\<close>

lemma pow2_powi: "pow2 e = 2 powi e"
  by (simp add: pow2_def power_int_def field_simps)

lemma pow2_pos: "0 < pow2 e"
  by (simp add: pow2_powi)

lemma binexp_bounds:
  assumes "0 < a"
  shows "pow2 (binexp a) \<le> a \<and> a < pow2 (binexp a + 1)"
proof (cases "1 \<le> a")
  case True
  define n where "n = \<lfloor>a\<rfloor>"
  have n: "0 < n" "of_int n \<le> a" "a < of_int n + 1"
    using True floor_correct [of a] by (simp_all add: n_def)
  from bitlen_bounds [OF n(1)] have b: "2 ^ nat (bitlen n - 1) \<le> n" "n < 2 ^ nat (bitlen n)"
    by simp_all
  have k: "0 \<le> bitlen n - 1"
    using n(1) bitlen_ge_iff_power [of 1 n] by simp
  have "(of_int (2 ^ nat (bitlen n - 1)) :: rat) \<le> of_int n"
    using b(1) by (simp only: of_int_le_iff)
  then have "(2::rat) ^ nat (bitlen n - 1) \<le> of_int n"
    by simp
  then have lo: "(2::rat) ^ nat (bitlen n - 1) \<le> a"
    using n(2) by linarith
  have "n + 1 \<le> 2 ^ nat (bitlen n)"
    using b(2) by simp
  then have "(of_int (n + 1) :: rat) \<le> of_int (2 ^ nat (bitlen n))"
    by (simp only: of_int_le_iff)
  then have "of_int n + 1 \<le> (2::rat) ^ nat (bitlen n)"
    by simp
  then have hi: "a < 2 ^ nat (bitlen n)"
    using n(3) by linarith
  show ?thesis
    using True lo hi k by (simp add: binexp_def pow2_def n_def [symmetric])
next
  case False
  define m where "m = \<lceil>1 / a\<rceil> - 1"
  have "1 < 1 / a"
    using assms False by simp
  then have "1 < \<lceil>1 / a\<rceil>"
    by (simp add: less_ceiling_iff)
  then have m: "0 < m"
    by (simp add: m_def)
  have c: "of_int m < 1 / a" "1 / a \<le> of_int m + 1"
    by (simp_all add: m_def) linarith+
  from bitlen_bounds [OF m] have b: "2 ^ nat (bitlen m - 1) \<le> m" "m < 2 ^ nat (bitlen m)"
    by simp_all
  have k: "0 < bitlen m"
    using m bitlen_ge_iff_power [of 1 m] by simp
  have "m + 1 \<le> 2 ^ nat (bitlen m)"
    using b(2) by simp
  then have "(of_int (m + 1) :: rat) \<le> of_int (2 ^ nat (bitlen m))"
    by (simp only: of_int_le_iff)
  then have "of_int m + 1 \<le> (2::rat) ^ nat (bitlen m)"
    by simp
  then have "1 / a \<le> 2 ^ nat (bitlen m)"
    using c(2) by linarith
  then have lo: "1 / 2 ^ nat (bitlen m) \<le> a"
    using assms by (simp add: field_simps)
  have "(of_int (2 ^ nat (bitlen m - 1)) :: rat) \<le> of_int m"
    using b(1) by (simp only: of_int_le_iff)
  then have "(2::rat) ^ nat (bitlen m - 1) \<le> of_int m"
    by simp
  then have "(2::rat) ^ nat (bitlen m - 1) < 1 / a"
    using c(1) by linarith
  then have hi: "a < 1 / 2 ^ nat (bitlen m - 1)"
    using assms by (simp add: field_simps)
  have e: "nat (- (1 - bitlen m)) = nat (bitlen m - 1)"
    by simp
  show ?thesis
  proof (cases "bitlen m = 1")
    case True
    with lo hi False show ?thesis
      by (simp add: binexp_def pow2_def m_def [symmetric])
  next
    case F: False
    with k have "\<not> 0 \<le> 1 - bitlen m" by simp
    with lo hi False k show ?thesis
      by (simp add: binexp_def pow2_def m_def [symmetric] e)
  qed
qed

lemma roundHalfEven_error: "\<bar>of_int (roundHalfEven y) - y\<bar> \<le> 1 / 2"
proof -
  define f where "f = \<lfloor>y\<rfloor>"
  have "of_int f \<le> y" "y < of_int f + 1"
    using floor_correct [of y] by (simp_all add: f_def)
  then show ?thesis
    unfolding roundHalfEven_def Let_def f_def [symmetric] by (auto simp: abs_if split: if_splits)
qed

lemma roundDouble_error:
  assumes "pow2 (- 1022) \<le> \<bar>x\<bar>"
  shows "\<bar>roundDouble x - x\<bar> \<le> \<bar>x\<bar> / 2 ^ 53"
proof (cases "of_int \<lfloor>x\<rfloor> = x \<and> \<bar>x\<bar> \<le> 2 ^ 53")
  case True
  then show ?thesis by (simp add: roundDouble_def)
next
  case False
  define a where "a = \<bar>x\<bar>"
  have a: "0 < a"
    using assms pow2_pos [of "- 1022"] by (simp add: a_def)
  define b where "b = binexp a"
  have bb: "pow2 b \<le> a" "a < pow2 (b + 1)"
    using binexp_bounds [OF a] by (simp_all add: b_def)
  have "- 1022 \<le> b"
  proof (rule ccontr)
    assume "\<not> - 1022 \<le> b"
    then have "b + 1 \<le> - 1022" by simp
    then have "pow2 (b + 1) \<le> pow2 (- 1022)"
      unfolding pow2_powi by (intro power_int_increasing) simp_all
    with bb(2) assms show False by (simp add: a_def)
  qed
  then have e: "max (b - 52) (- 1074) = b - 52"
    by simp
  define k where "k = roundHalfEven (a / pow2 (b - 52))"
  have "roundDouble x =
          (let e = max (binexp \<bar>x\<bar> - 52) (- 1074)
           in sgn x * of_int (roundHalfEven (\<bar>x\<bar> / pow2 e)) * pow2 e)"
    unfolding roundDouble_def using False by (rule if_not_P)
  then have rd: "roundDouble x = sgn x * of_int k * pow2 (b - 52)"
    unfolding Let_def a_def [symmetric] b_def [symmetric] e k_def .
  have p: "pow2 (b - 52) = pow2 b / 2 ^ 52"
    unfolding pow2_powi by (simp add: power_int_diff)
  have pp: "0 < pow2 (b - 52)"
    by (rule pow2_pos)
  have "x = sgn x * a"
    by (simp add: a_def abs_sgn mult.commute) 
  then have "roundDouble x - x = sgn x * (of_int k * pow2 (b - 52) - a)"
    unfolding rd by (metis mult.assoc right_diff_distrib)
  then have "\<bar>roundDouble x - x\<bar> = \<bar>of_int k * pow2 (b - 52) - a\<bar>"
    using a by (simp add: abs_mult a_def abs_sgn_eq)
  also have "of_int k * pow2 (b - 52) - a = (of_int k - a / pow2 (b - 52)) * pow2 (b - 52)"
    using pp by (simp add: field_simps)
  also have "\<bar>\<dots>\<bar> = \<bar>of_int k - a / pow2 (b - 52)\<bar> * pow2 (b - 52)"
    using pp by (simp add: abs_mult)
  also have "\<dots> \<le> 1 / 2 * pow2 (b - 52)"
    using roundHalfEven_error [of "a / pow2 (b - 52)"] pp
    by (intro mult_right_mono) (simp_all add: k_def)
  also have "\<dots> = pow2 b / 2 ^ 53"
    by (simp add: p)
  also have "\<dots> \<le> a / 2 ^ 53"
    using bb(1) by (simp add: divide_right_mono)
  finally show ?thesis
    by (simp add: a_def)
qed


lemma roundDouble_whole: "\<bar>n\<bar> \<le> 2 ^ 53 \<Longrightarrow> roundDouble (of_int n) = of_int n"
proof -
  assume "\<bar>n\<bar> \<le> 2 ^ 53"
  then have "(of_int \<bar>n\<bar> :: rat) \<le> of_int (2 ^ 53)"
    by (simp only: of_int_le_iff)
  then show ?thesis
    by (simp add: roundDouble_def)
qed

lemma toDouble_whole: "\<bar>n\<bar> \<le> 2 ^ 53 \<Longrightarrow> toDouble (of_int n) = Finite (of_int n)"
proof -
  assume a: "\<bar>n\<bar> \<le> 2 ^ 53"
  then have "(of_int \<bar>n\<bar> :: rat) \<le> of_int (2 ^ 53)"
    by (simp only: of_int_le_iff)
  then have "\<bar>of_int n :: rat\<bar> \<le> 2 ^ 53"
    by simp
  moreover have "(2::rat) ^ 53 < 2 ^ 1024"
    by simp
  ultimately have "\<not> (2::rat) ^ 1024 \<le> \<bar>of_int n\<bar>"
    by linarith
  then show ?thesis
    unfolding toDouble_def Let_def roundDouble_whole [OF a] by simp
qed

lemma quotient_round:
  fixes t l :: int
  assumes "0 \<le> t" "t < 2 ^ 53" "l \<noteq> 0" "\<bar>l\<bar> < 2 ^ 63"
  shows "\<lceil>roundDouble (of_int t / of_int l)\<rceil> = \<lceil>of_int t / of_int l :: rat\<rceil>"
    and "\<bar>roundDouble (of_int t / of_int l)\<bar> < 2 ^ 1024"
proof -
  define q :: rat where "q = of_int t / of_int l"
  define L where "L = \<bar>l\<bar>"
  have L: "1 \<le> L" "L < 2 ^ 63"
    using assms by (simp_all add: L_def)
  have Lr: "(1::rat) \<le> of_int L" "(of_int L :: rat) < 2 ^ 63"
  proof -
    have "(of_int 1 :: rat) \<le> of_int L"
      using L(1) by (simp only: of_int_le_iff)
    then show "(1::rat) \<le> of_int L" by simp
    have "(of_int L :: rat) < of_int (2 ^ 63)"
      using L(2) by (simp only: of_int_less_iff)
    then show "(of_int L :: rat) < 2 ^ 63" by simp
  qed
  have tr: "(0::rat) \<le> of_int t" "(of_int t :: rat) < 2 ^ 53"
  proof -
    show "(0::rat) \<le> of_int t" using assms(1) by simp
    have "(of_int t :: rat) < of_int (2 ^ 53)"
      using assms(2) by (simp only: of_int_less_iff)
    then show "(of_int t :: rat) < 2 ^ 53" by simp
  qed
  have absq: "\<bar>q\<bar> = of_int t / of_int L"
    using assms(1) by (simp add: q_def L_def abs_divide)
  have small: "\<bar>q\<bar> < 2 ^ 53"
  proof -
    have "(of_int t :: rat) * 1 \<le> of_int t * of_int L"
      using Lr(1) tr(1) by (intro mult_left_mono)
    moreover have "(0::rat) < of_int L"
      using Lr(1) by linarith
    ultimately have "of_int t / of_int L \<le> (of_int t :: rat)"
      by (simp add: pos_divide_le_eq)
    with tr(2) absq show ?thesis by simp
  qed
  have both: "\<lceil>roundDouble q\<rceil> = \<lceil>q\<rceil> \<and> \<bar>roundDouble q\<bar> < 2 ^ 1024"
  proof (cases "of_int \<lfloor>q\<rfloor> = q")
    case True
    with small have "roundDouble q = q"
      by (simp add: roundDouble_def)
    moreover have "(2::rat) ^ 53 < 2 ^ 1024"
      by simp
    ultimately show ?thesis
      using small by simp
  next
    case False
    define n where "n = \<lfloor>q\<rfloor>"
    have n: "of_int n < q" "q < of_int n + 1"
      using False floor_correct [of q] by (simp_all add: n_def less_le)
    define z where "z = t * sgn l"
    have qL: "q * of_int L = of_int z"
      using assms(3) by (simp add: q_def L_def z_def abs_if sgn_if)
    have "of_int n * of_int L < q * (of_int L :: rat)"
      using n(1) Lr(1) by (simp add: mult_strict_right_mono)
    then have "(of_int (n * L) :: rat) < of_int z"
      by (simp add: qL)
    then have "n * L < z"
      by (simp only: of_int_less_iff)
    then have "n * L + 1 \<le> z"
      by simp
    then have "(of_int (n * L + 1) :: rat) \<le> of_int z"
      by (simp only: of_int_le_iff)
    then have "of_int n * of_int L + 1 \<le> q * (of_int L :: rat)"
      by (simp add: qL)
    then have lo: "of_int n + 1 / of_int L \<le> q"
      using Lr(1) by (simp add: field_simps)
    have "q * (of_int L :: rat) < (of_int n + 1) * of_int L"
      using n(2) Lr(1) by (simp add: mult_strict_right_mono)
    then have "(of_int z :: rat) < of_int ((n + 1) * L)"
      by (simp add: qL)
    then have "z < (n + 1) * L"
      by (simp only: of_int_less_iff)
    then have "z + 1 \<le> (n + 1) * L"
      by simp
    then have "(of_int (z + 1) :: rat) \<le> of_int ((n + 1) * L)"
      by (simp only: of_int_le_iff)
    then have "q * (of_int L :: rat) + 1 \<le> (of_int n + 1) * of_int L"
      by (simp add: qL)
    then have hi: "q + 1 / of_int L \<le> of_int n + 1"
      using Lr(1) by (simp add: field_simps)
    have "t \<noteq> 0"
      using False by (auto simp: q_def)
    with assms(1) have "1 \<le> t" by simp
    then have "(of_int 1 :: rat) \<le> of_int t"
      by (simp only: of_int_le_iff)
    then have t1: "(1::rat) \<le> of_int t" by simp
    have big: "1 / of_int L \<le> \<bar>q\<bar>"
      unfolding absq using t1 Lr(1) by (simp add: divide_right_mono)
    have "pow2 (- 1022) \<le> 1 / 2 ^ 63"
      by (simp add: pow2_def)
    also have "\<dots> \<le> 1 / of_int L"
      using Lr by (simp add: field_simps)
    finally have "pow2 (- 1022) \<le> \<bar>q\<bar>"
      using big by simp
    from roundDouble_error [OF this] have "\<bar>roundDouble q - q\<bar> \<le> of_int t / of_int L / 2 ^ 53"
      by (simp add: absq)
    also have "\<dots> < 1 / of_int L"
      using tr(2) Lr(1) by (simp add: field_simps)
    finally have err: "\<bar>roundDouble q - q\<bar> < 1 / of_int L" .
    have r: "of_int n < roundDouble q" "roundDouble q < of_int n + 1"
      using err lo hi by (simp_all add: abs_if split: if_splits)
    then have "\<lceil>roundDouble q\<rceil> = n + 1"
      by (intro ceiling_unique) simp_all
    moreover have "\<lceil>q\<rceil> = n + 1"
      using n by (intro ceiling_unique) simp_all
    moreover have "\<bar>roundDouble q\<bar> < 2 ^ 1024"
    proof -
      have "\<bar>roundDouble q\<bar> \<le> \<bar>roundDouble q - q\<bar> + \<bar>q\<bar>"
        by simp
      also have "\<dots> < 1 / of_int L + 2 ^ 53"
        using err small by simp
      also have "\<dots> \<le> 1 + 2 ^ 53"
        using Lr(1) by (simp add: field_simps)
      also have "\<dots> < (2::rat) ^ 1024"
        by simp
      finally show ?thesis .
    qed
    ultimately show ?thesis by simp
  qed
  then show "\<lceil>roundDouble (of_int t / of_int l)\<rceil> = \<lceil>of_int t / of_int l :: rat\<rceil>"
    and "\<bar>roundDouble (of_int t / of_int l)\<bar> < 2 ^ 1024"
    by (simp_all add: q_def)
qed
lemma roundDouble_int: "\<exists>m. roundDouble (of_int n) = of_int m"
proof (cases "\<bar>n\<bar> \<le> 2 ^ 53")
  case True
  then show ?thesis
    using roundDouble_whole by blast
next
  case False
  define x :: rat where "x = of_int n"
  define a where "a = \<bar>x\<bar>"
  from False have "2 ^ 53 < \<bar>n\<bar>" by simp
  then have "(of_int (2 ^ 53) :: rat) < of_int \<bar>n\<bar>"
    by (simp only: of_int_less_iff)
  then have big: "2 ^ 53 < a"
    by (simp add: a_def x_def)
  moreover have "(0::rat) < 2 ^ 53"
    by simp
  ultimately have a: "0 < a"
    by linarith
  define b where "b = binexp a"
  have bb: "a < pow2 (b + 1)"
    using binexp_bounds [OF a] by (simp add: b_def)
  have "53 \<le> b"
  proof (rule ccontr)
    assume "\<not> 53 \<le> b"
    then have "b + 1 \<le> 53" by simp
    then have "pow2 (b + 1) \<le> pow2 53"
      unfolding pow2_powi by (intro power_int_increasing) simp_all
    with bb big show False by (simp add: pow2_def)
  qed
  then have e: "max (b - 52) (- 1074) = b - 52" and p: "pow2 (b - 52) = of_int (2 ^ nat (b - 52))"
    by (simp_all add: pow2_def)
  have "\<not> (of_int \<lfloor>x\<rfloor> = x \<and> \<bar>x\<bar> \<le> 2 ^ 53)"
    using big by (simp add: a_def)
  then have "roundDouble x =
          (let e = max (binexp \<bar>x\<bar> - 52) (- 1074)
           in sgn x * of_int (roundHalfEven (\<bar>x\<bar> / pow2 e)) * pow2 e)"
    unfolding roundDouble_def by (rule if_not_P)
  then have "roundDouble x = sgn x * of_int (roundHalfEven (a / pow2 (b - 52))) * pow2 (b - 52)"
    unfolding Let_def a_def [symmetric] b_def [symmetric] e .
  also have "sgn x = of_int (sgn n)"
    by (simp add: x_def sgn_if)
  finally have "roundDouble x = of_int (sgn n * roundHalfEven (a / pow2 (b - 52)) * 2 ^ nat (b - 52))"
    unfolding p by simp
  then show ?thesis
    unfolding x_def by blast
qed

subsection \<open>Reading page and limit\<close>

lemma digit_chars:
  "\<forall>d \<in> set [0 ..< 10].
     digitValue (''0123456789'' ! d) = Some d \<and> \<not> isWhiteSpace (''0123456789'' ! d)
     \<and> ''0123456789'' ! d \<noteq> CHR ''-'' \<and> ''0123456789'' ! d \<noteq> CHR ''+''
     \<and> ''0123456789'' ! d \<noteq> CHR ''x'' \<and> ''0123456789'' ! d \<noteq> CHR ''X''"
  by code_simp

lemma decimal_nth: "decimal c \<longleftrightarrow> (\<exists>d < 10. c = ''0123456789'' ! d)"
proof -
  have l: "length ''0123456789'' = 10"
    by simp
  show ?thesis
    unfolding decimal_def in_set_conv_nth l by auto
qed

lemma decimal_props:
  assumes "decimal c"
  shows "isRadixDigit 10 c" "\<not> isWhiteSpace c" "c \<noteq> CHR ''-''" "c \<noteq> CHR ''+''"
    "c \<noteq> CHR ''x''" "c \<noteq> CHR ''X''"
proof -
  from assms obtain d where d: "d < 10" "c = ''0123456789'' ! d"
    by (auto simp: decimal_nth)
  then have "d \<in> set [0 ..< 10]" by simp
  with digit_chars d show "isRadixDigit 10 c" "\<not> isWhiteSpace c" "c \<noteq> CHR ''-''" "c \<noteq> CHR ''+''"
    "c \<noteq> CHR ''x''" "c \<noteq> CHR ''X''"
    by (auto simp: isRadixDigit_def simp del: set_upt)
qed

lemma digitValue_nth: "d < 10 \<Longrightarrow> digitValue (''0123456789'' ! d) = Some d"
  using digit_chars by simp

lemma digitValue_digits:
  "digitValue CHR ''0'' = Some 0" "digitValue CHR ''1'' = Some 1" "digitValue CHR ''2'' = Some 2"
  "digitValue CHR ''3'' = Some 3" "digitValue CHR ''4'' = Some 4" "digitValue CHR ''5'' = Some 5"
  "digitValue CHR ''6'' = Some 6" "digitValue CHR ''7'' = Some 7" "digitValue CHR ''8'' = Some 8"
  "digitValue CHR ''9'' = Some 9"
  using digitValue_nth [of 0] digitValue_nth [of 1] digitValue_nth [of 2] digitValue_nth [of 3]
    digitValue_nth [of 4] digitValue_nth [of 5] digitValue_nth [of 6] digitValue_nth [of 7]
    digitValue_nth [of 8] digitValue_nth [of 9]
  by (simp_all add: numeral_nat)

lemma digitsOf_decimal: "\<forall>c \<in> set (digitsOf n). decimal c"
proof (induction n rule: digitsOf.induct)
  case (1 n)
  show ?case
  proof (cases "n < 10")
    case True
    then show ?thesis
      by (subst digitsOf.simps) (auto simp: decimal_nth)
  next
    case False
    have "n mod 10 < 10" by simp
    then have "decimal (''0123456789'' ! (n mod 10))"
      unfolding decimal_nth by blast
    with False 1 show ?thesis
      by (subst digitsOf.simps) auto
  qed
qed

lemma digitsOf_not_Nil: "digitsOf n \<noteq> []"
  by (subst digitsOf.simps) simp

lemma digitsValue_snoc: "digitsValue R (Z @ [c]) = digitsValue R Z * R + the (digitValue c)"
  by (simp add: digitsValue_def)

lemma digitsValue_digitsOf: "digitsValue 10 (digitsOf n) = n"
proof (induction n rule: digitsOf.induct)
  case (1 n)
  show ?case
  proof (cases "n < 10")
    case True
    then show ?thesis
      by (subst digitsOf.simps) (simp add: digitsValue_def digitValue_nth)
  next
    case False
    have "n mod 10 < 10" by simp
    then have "digitValue (''0123456789'' ! (n mod 10)) = Some (n mod 10)"
      by (rule digitValue_nth)
    with False 1 show ?thesis
      by (subst digitsOf.simps) (simp add: digitsValue_snoc)
  qed
qed

text \<open>\<^verbatim>\<open>parseInt\<close> of a run of decimal digits, with or without a minus sign.\<close>

lemma parseInt_decimal:
  assumes "s \<noteq> []" and "\<forall>c \<in> set s. decimal c"
  shows "parseInt s = toDouble (of_nat (digitsValue 10 s))"
    and "parseInt (CHR ''-'' # s) = toDouble (- of_nat (digitsValue 10 s))"
proof -
  obtain c cs where s: "s = c # cs"
    using assms(1) by (cases s) auto
  have all: "\<forall>x \<in> set (c # cs). decimal x"
    using assms(2) s by simp
  then have c: "decimal c" by simp
  have ws: "dropWhile isWhiteSpace (c # cs) = c # cs"
    using decimal_props(2) [OF c] by simp
  have ws': "dropWhile isWhiteSpace (CHR ''-'' # c # cs) = CHR ''-'' # c # cs"
    by (simp add: isWhiteSpace_def)
  have sign: "splitSign (c # cs) = (1, c # cs)"
    using decimal_props(3,4) [OF c] by (simp add: splitSign_def)
  have sign': "splitSign (CHR ''-'' # c # cs) = (- 1, c # cs)"
    by (simp add: splitSign_def)
  have hex: "(case c # cs of
                a # b # r \<Rightarrow> if a = CHR ''0'' \<and> (b = CHR ''x'' \<or> b = CHR ''X'') then (16::nat, r) else (10, c # cs)
              | _ \<Rightarrow> (10, c # cs)) = (10, c # cs)"
  proof (cases cs)
    case Nil
    then show ?thesis by simp
  next
    case (Cons b r)
    with all have "decimal b" by simp
    from decimal_props(5,6) [OF this] Cons show ?thesis by simp
  qed
  have tw: "takeWhile (isRadixDigit 10) (c # cs) = c # cs"
    using all decimal_props(1) by (simp add: takeWhile_eq_all_conv)
  show "parseInt s = toDouble (of_nat (digitsValue 10 s))"
    unfolding parseInt_def s ws sign using hex tw by (simp add: Let_def)
  show "parseInt (CHR ''-'' # s) = toDouble (- of_nat (digitsValue 10 s))"
    unfolding parseInt_def s ws' sign' using hex tw by (simp add: Let_def)
qed

lemma parseInt_digitsOf: "parseInt (digitsOf n) = toDouble (of_nat n)"
  using parseInt_decimal(1) [OF digitsOf_not_Nil digitsOf_decimal, of n]
  by (simp add: digitsValue_digitsOf)

lemma parseInt_defaults: "parseInt ''1'' = Finite 1" "parseInt ''20'' = Finite 20"
proof -
  have "parseInt ''1'' = toDouble (of_nat (digitsValue 10 ''1''))"
    by (rule parseInt_decimal) (simp_all add: decimal_def)
  moreover have "parseInt ''20'' = toDouble (of_nat (digitsValue 10 ''20''))"
    by (rule parseInt_decimal) (simp_all add: decimal_def)
  moreover have "toDouble (of_int 1) = Finite (of_int 1)" "toDouble (of_int 20) = Finite (of_int 20)"
    by (rule toDouble_whole, simp)+
  ultimately show "parseInt ''1'' = Finite 1" "parseInt ''20'' = Finite 20"
    by (simp_all add: digitsValue_def digitValue_digits)
qed

lemma parseInt_whole: "parseInt s = Finite r \<Longrightarrow> of_int \<lfloor>r\<rfloor> = r"
proof -
  have w: "of_int \<lfloor>r\<rfloor> = r" if "toDouble (of_int n) = Finite r" for n
  proof -
    from that have "r = roundDouble (of_int n)"
      by (simp add: toDouble_def Let_def split: if_splits)
    with roundDouble_int [of n] obtain m where "r = of_int m"
      by auto
    then show ?thesis
      by simp
  qed
  have "of_int sign * of_nat v = (of_int (sign * int v) :: rat)" for sign v
    by simp
  then have "\<exists>n. parseInt s = toDouble (of_int n) \<or> parseInt s = NaN"
    unfolding parseInt_def Let_def by (auto split: prod.splits simp del: of_int_mult of_int_of_nat_eq)
  then obtain n where "parseInt s = toDouble (of_int n) \<or> parseInt s = NaN"
    by blast
  moreover assume "parseInt s = Finite r"
  ultimately have "toDouble (of_int n) = Finite r"
    by auto
  then show "of_int \<lfloor>r\<rfloor> = r"
    by (rule w)
qed

lemma orElse_wholeNotZero:
  assumes "\<And>r. x = Finite r \<Longrightarrow> of_int \<lfloor>r\<rfloor> = r" and "wholeNotZero d"
  shows "wholeNotZero (orElse x d)"
  using assms by (cases x) (auto simp: orElse_def wholeNotZero_def)


lemma limitNum_whole: "wholeNotZero (limitNum req)"
  unfolding limitNum_def by (rule orElse_wholeNotZero) (simp_all add: parseInt_whole wholeNotZero_def)

lemma offset_exact:
  assumes "pageNum req = Finite (of_int p)" and "limitNum req = Finite (of_int l)"
    and "\<bar>(p - 1) * l\<bar> \<le> 2 ^ 53"
  shows "offset req = Finite (of_int ((p - 1) * l))"
proof -
  have "l \<noteq> 0"
    using limitNum_whole [of req] assms(2) by (simp add: wholeNotZero_def)
  then have "1 \<le> \<bar>l\<bar>" by simp
  then have "\<bar>p - 1\<bar> * 1 \<le> \<bar>p - 1\<bar> * \<bar>l\<bar>"
    by (intro mult_left_mono) simp_all
  with assms(3) have "\<bar>p - 1\<bar> \<le> 2 ^ 53"
    by (simp add: abs_mult)
  from toDouble_whole [OF this] have "jsSub (Finite (of_int p)) (Finite 1) = Finite (of_int (p - 1))"
    by simp
  moreover have "jsMul (Finite (of_int (p - 1))) (Finite (of_int l)) = Finite (of_int ((p - 1) * l))"
    using toDouble_whole [OF assms(3)] by simp
  ultimately show ?thesis
    by (simp add: offset_def assms(1,2))
qed

lemma totalPages_exact:
  assumes "sqlInteger (limitNum req)" and "n < 2 ^ 53"
  shows "mathCeil (jsDiv (toDouble (of_nat n)) (limitNum req))
           = Finite (of_int \<lceil>of_nat n / rat_of_int (integerOf (limitNum req))\<rceil>)"
proof -
  from assms(1) obtain r where r: "limitNum req = Finite r" "of_int \<lfloor>r\<rfloor> = r"
    "- (2 ^ 63) < r" "r < 2 ^ 63"
    by (cases "limitNum req") (auto simp: sqlInteger_def)
  define l where "l = \<lfloor>r\<rfloor>"
  have rl: "r = of_int l"
    unfolding l_def using r(2) by (rule sym)
  have l0: "l \<noteq> 0"
    using limitNum_whole [of req] r(1) rl by (simp add: wholeNotZero_def)
  have "(of_int (- (2 ^ 63)) :: rat) < of_int l" "(of_int l :: rat) < of_int (2 ^ 63)"
    using r(3,4) rl by simp_all
  then have "- (2 ^ 63) < l" "l < 2 ^ 63"
    by (simp_all only: of_int_less_iff)
  then have l63: "\<bar>l\<bar> < 2 ^ 63"
    by simp
  have n: "0 \<le> int n" "int n < 2 ^ 53"
    using assms(2) by simp_all
  have "\<bar>int n\<bar> \<le> 2 ^ 53"
    using n by simp
  from toDouble_whole [OF this] have t: "toDouble (of_nat n) = Finite (of_nat n)"
    by simp
  have q: "\<lceil>roundDouble (of_int (int n) / of_int l)\<rceil> = \<lceil>of_int (int n) / of_int l :: rat\<rceil>"
    "\<bar>roundDouble (of_int (int n) / of_int l)\<bar> < 2 ^ 1024"
    by (rule quotient_round [OF n l0 l63])+
  have "jsDiv (Finite (of_nat n)) (Finite (of_int l)) = Finite (roundDouble (of_nat n / of_int l))"
    using l0 q(2) by (simp add: toDouble_def Let_def)
  then show ?thesis
    using q(1) by (simp add: t r(1) rl mathCeil_def integerOf_def)
qed


subsection \<open>The two rows of the tests\<close>

lemma newProduct_valid:
  "validateProduct newProduct = []"
  "validateProduct (newProduct\<lparr>body_description := None\<rparr>) = []"
  "validateProduct (newProduct\<lparr>body_unit_price := Some 0\<rparr>) = []"
  "validateId ''000-01'' = []"
  by code_simp+

lemma twoProducts_rows:
  "twoProducts =
     [\<lparr>row_id = ''000-01'', row_category = ''clothing'', row_name = ''Test Product'',
       row_description = Some ''Test Description'', row_quantity = 100, row_unit_price = 50,
       row_code = ''000-01'', row_created_at = ''2024-01-01 00:00:00'',
       row_updated_at = ''2024-01-01 00:00:00''\<rparr>,
      \<lparr>row_id = ''000-99'', row_category = ''test'', row_name = ''New Test Product'',
       row_description = Some ''Test Description'', row_quantity = 50, row_unit_price = 25,
       row_code = ''000-99'', row_created_at = ''2024-01-02 00:00:00'',
       row_updated_at = ''2024-01-02 00:00:00''\<rparr>]"
  unfolding twoProducts_def by code_simp

lemma no_filter_matches:
  assumes "req_category req = None" "req_search req = None"
    "req_minPrice req = None" "req_maxPrice req = None"
  shows "filter (matches req) db = db"
  using assms by (simp add: matches_def truthy_def)

lemma parseInt_small:
  assumes "s \<noteq> []" and "\<forall>c \<in> set s. decimal c" and "int (digitsValue 10 s) \<le> 2 ^ 53"
  shows "parseInt s = Finite (of_nat (digitsValue 10 s))"
    and "parseInt (CHR ''-'' # s) = Finite (- of_nat (digitsValue 10 s))"
proof -
  have "\<bar>int (digitsValue 10 s)\<bar> \<le> 2 ^ 53" "\<bar>- int (digitsValue 10 s)\<bar> \<le> 2 ^ 53"
    using assms(3) by simp_all
  from toDouble_whole [OF this(1)] toDouble_whole [OF this(2)]
  show "parseInt s = Finite (of_nat (digitsValue 10 s))"
    and "parseInt (CHR ''-'' # s) = Finite (- of_nat (digitsValue 10 s))"
    using parseInt_decimal [OF assms(1,2)] by simp_all
qed

subsection \<open>Pagination\<close>


lemma second_page:
  "req_page req = Some ''2'' \<Longrightarrow> pageNum req = Finite 2"
  "req_limit req = Some ''1'' \<Longrightarrow> limitNum req = Finite 1"
proof -
  have "parseInt ''2'' = Finite (of_nat (digitsValue 10 ''2''))"
    by (rule parseInt_small) (simp_all add: decimal_def digitsValue_def digitValue_digits)
  then show "req_page req = Some ''2'' \<Longrightarrow> pageNum req = Finite 2"
    by (simp add: pageNum_def orElse_def digitsValue_def digitValue_digits)
  show "req_limit req = Some ''1'' \<Longrightarrow> limitNum req = Finite 1"
    by (simp add: limitNum_def orElse_def parseInt_defaults)
qed

lemma twoProducts_by_id:
  "orderedRows insertionOrder (noQuery\<lparr>req_page := page, req_limit := limit\<rparr>) twoProducts = twoProducts"
proof -
  have "sortColumn (noQuery\<lparr>req_page := page, req_limit := limit\<rparr>) = ''id''"
    "sortOrder (noQuery\<lparr>req_page := page, req_limit := limit\<rparr>) = ''ASC''"
    by (simp_all add: sortColumn_def sortOrder_def noQuery_def validSortColumns_def toUpperCase_def)
  moreover have "sort_key row_id (sort_key (insertionOrder ''id'' ''ASC'') twoProducts) = twoProducts"
    unfolding twoProducts_rows by code_simp
  ultimately show ?thesis
    by (simp add: orderedRows_def orderRows_def sortByColumn_def)
qed



subsection \<open>A price bound that is not a number\<close>

lemma matches_NaN:
  assumes "req_minPrice req = Some s \<and> s \<noteq> [] \<and> parseFloat s = NaN
           \<or> req_maxPrice req = Some s \<and> s \<noteq> [] \<and> parseFloat s = NaN"
  shows "matches req row = False"
  using assms by (auto simp: matches_def truthy_def)

lemma clause_in_queries:
  assumes "c \<in> set (reqConds req)"
  shows "\<exists>pre post. countQuery (buildQuery req) = pre @ condText c @ post"
    and "\<exists>pre post. query (buildQuery req) = pre @ condText c @ post"
proof -
  from assms obtain ys zs where "reqConds req = ys @ c # zs"
    by (auto simp: in_set_conv_decomp)
  then have e: "concat (map condText (reqConds req))
      = concat (map condText ys) @ condText c @ concat (map condText zs)"
    by simp
  have "countQuery (buildQuery req) =
      (''SELECT COUNT(*) as total FROM products WHERE 1=1'' @ concat (map condText ys))
        @ condText c @ concat (map condText zs)"
    unfolding countQuery_conds e by simp
  then show "\<exists>pre post. countQuery (buildQuery req) = pre @ condText c @ post"
    by blast
  have "query (buildQuery req) =
      (''SELECT * FROM products WHERE 1=1'' @ concat (map condText ys))
        @ condText c @ (concat (map condText zs) @ '' ORDER BY '' @ sortColumn req @ '' ''
             @ sortOrder req @ '' LIMIT ? OFFSET ?'')"
    unfolding query_conds e by simp
  then show "\<exists>pre post. query (buildQuery req) = pre @ condText c @ post"
    by blast
qed

lemma toDouble_zero: "toDouble 0 = Finite 0"
  using toDouble_whole [of 0] by simp

lemma no_pages:
  assumes "sqlInteger (limitNum req)"
  shows "mathCeil (jsDiv (Finite 0) (limitNum req)) = Finite 0"
  using totalPages_exact [OF assms, of 0] by (simp add: toDouble_zero)

text \<open>
  C10, as amended. When \<^verbatim>\<open>minPrice\<close> (or \<^verbatim>\<open>maxPrice\<close>) is a non-empty string that
  \<^verbatim>\<open>parseFloat\<close> reads as \<^verbatim>\<open>NaN\<close>, the price clause is still in the text of the count
  query and of the page query, with \<^verbatim>\<open>NaN\<close> in the parameters of both; the count query
  counts no row; and the answer is status 200 with no record, a total of 0 and no page,
  provided the limit and the offset are integers the store takes: otherwise it is
  status 500.
\<close>

theorem unparsable_price_selects_nothing:
  assumes "req_minPrice req = Some s \<and> s \<noteq> [] \<and> parseFloat s = NaN
           \<or> req_maxPrice req = Some s \<and> s \<noteq> [] \<and> parseFloat s = NaN"
  shows "(\<exists>pre post. fst (countCall req) =
            pre @ (if req_minPrice req = Some s \<and> s \<noteq> [] \<and> parseFloat s = NaN
                   then '' AND unit_price >= ?'' else '' AND unit_price <= ?'') @ post)
         \<and> (\<exists>pre post. fst (pageCall req) =
            pre @ (if req_minPrice req = Some s \<and> s \<noteq> [] \<and> parseFloat s = NaN
                   then '' AND unit_price >= ?'' else '' AND unit_price <= ?'') @ post)
         \<and> JNum NaN \<in> set (params (buildQuery req))
         \<and> JNum NaN \<in> set (snd (countCall req)) \<and> JNum NaN \<in> set (snd (pageCall req))
         \<and> db_get db (fst (countCall req)) (snd (countCall req)) = Inr 0
         \<and> listProducts tie db req =
             (if sqlInteger (limitNum req) \<and> sqlInteger (offset req)
              then (200, ProductsPage []
                      \<lparr>pg_page = pageNum req, pg_limit = limitNum req,
                       pg_total = Finite 0, pg_totalPages = Finite 0\<rparr>)
              else (500, ListError ''Failed to fetch products''))"
proof -
  let ?c = "if req_minPrice req = Some s \<and> s \<noteq> [] \<and> parseFloat s = NaN then PriceGe else PriceLe"
  have f: "filter (matches req) db = []"
    using matches_NaN [OF assms] by simp
  have ct: "condText ?c = (if req_minPrice req = Some s \<and> s \<noteq> [] \<and> parseFloat s = NaN
                   then '' AND unit_price >= ?'' else '' AND unit_price <= ?'')"
    by (simp add: condText_def)
  have "?c \<in> set (reqConds req)"
    using assms by (auto simp: reqConds_def truthy_def)
  from clause_in_queries [OF this]
  have q: "\<exists>pre post. fst (countCall req) =
            pre @ (if req_minPrice req = Some s \<and> s \<noteq> [] \<and> parseFloat s = NaN
                   then '' AND unit_price >= ?'' else '' AND unit_price <= ?'') @ post"
    "\<exists>pre post. fst (pageCall req) =
            pre @ (if req_minPrice req = Some s \<and> s \<noteq> [] \<and> parseFloat s = NaN
                   then '' AND unit_price >= ?'' else '' AND unit_price <= ?'') @ post"
    unfolding ct by (simp_all only: countCall_def pageCall_def fst_conv)
  have p: "JNum NaN \<in> set (params (buildQuery req))"
    unfolding params_buildQuery parameterArray_req using assms by (auto simp: truthy_def)
  then have p': "JNum NaN \<in> set (snd (countCall req))" "JNum NaN \<in> set (snd (pageCall req))"
    by (simp_all add: countCall_def pageCall_def)
  have g: "db_get db (fst (countCall req)) (snd (countCall req)) = Inr 0"
    by (simp add: db_get_count f)
  have "orderedRows tie req [] = []"
    using mset_orderedRows [of tie req "[]"] by simp
  then have l: "listProducts tie db req =
             (if sqlInteger (limitNum req) \<and> sqlInteger (offset req)
              then (200, ProductsPage []
                      \<lparr>pg_page = pageNum req, pg_limit = limitNum req,
                       pg_total = Finite 0, pg_totalPages = Finite 0\<rparr>)
              else (500, ListError ''Failed to fetch products''))"
    by (simp add: listProducts_eq f pageOf_def limitOffset_def Let_def toDouble_zero no_pages)
  from q p p' g l show ?thesis
    by blast
qed

theorem unparsable_price_selects_nothing_witness:
  "req_minPrice (noQuery\<lparr>req_minPrice := Some ''abc'', req_sortBy := Some ''name'', req_page := Some ''2'',
                         req_limit := Some ''1''\<rparr>) = Some ''abc''
   \<and> ''abc'' \<noteq> [] \<and> parseFloat ''abc'' = NaN
   \<and> JNum NaN \<in> set (snd (pageCall (noQuery\<lparr>req_minPrice := Some ''abc'', req_sortBy := Some ''name'',
                         req_page := Some ''2'', req_limit := Some ''1''\<rparr>)))
   \<and> listProducts insertionOrder twoProducts
         (noQuery\<lparr>req_minPrice := Some ''abc'', req_sortBy := Some ''name'', req_page := Some ''2'',
                  req_limit := Some ''1''\<rparr>) =
       (200, ProductsPage [] \<lparr>pg_page = Finite 2, pg_limit = Finite 1, pg_total = Finite 0,
                                pg_totalPages = Finite 0\<rparr>)"
proof -
  let ?r = "noQuery\<lparr>req_minPrice := Some ''abc'', req_sortBy := Some ''name'', req_page := Some ''2'',
                    req_limit := Some ''1''\<rparr>"
  have nan: "parseFloat ''abc'' = NaN"
    by code_simp
  have p: "pageNum ?r = Finite (of_int 2)" "limitNum ?r = Finite (of_int 1)"
    by (simp_all add: second_page)
  then have "offset ?r = Finite (of_int ((2 - 1) * 1))"
    by (rule offset_exact) simp
  then have i: "sqlInteger (limitNum ?r)" "sqlInteger (offset ?r)"
    by (simp_all add: second_page sqlInteger_def)
  have h: "req_minPrice ?r = Some ''abc'' \<and> ''abc'' \<noteq> [] \<and> parseFloat ''abc'' = NaN
           \<or> req_maxPrice ?r = Some ''abc'' \<and> ''abc'' \<noteq> [] \<and> parseFloat ''abc'' = NaN"
    using nan by simp
  from unparsable_price_selects_nothing [OF h, of twoProducts insertionOrder] i nan
  show ?thesis
    by (simp add: second_page)
qed

lemma huge_offset:
  "toDouble 11999999996000000000 = Finite 11999999996000000000"
proof -
  have "bitlen 11999999996000000000 = 64"
    by (simp add: compute_bitlen)
  then have "binexp 11999999996000000000 = 63"
    by (simp add: binexp_def)
  then have "roundDouble 11999999996000000000 = 11999999996000000000"
    by (simp add: roundDouble_def pow2_def roundHalfEven_def Let_def)
  then show ?thesis
    by (simp add: toDouble_def Let_def)
qed

text \<open>
  C10, as stated, fails: with \<^verbatim>\<open>minPrice=abc&page=3000000000&limit=4000000000\<close> the
  offset is \<open>11999999996000000000\<close>, above \<open>2^63\<close>; the store refuses it and the answer
  is status 500, not an empty list.
\<close>

theorem unparsable_price_huge_page:
  "parseFloat ''abc'' = NaN
   \<and> offset (noQuery\<lparr>req_minPrice := Some ''abc'', req_page := Some ''3000000000'',
                       req_limit := Some ''4000000000''\<rparr>) = Finite 11999999996000000000
   \<and> listProducts insertionOrder twoProducts
         (noQuery\<lparr>req_minPrice := Some ''abc'', req_page := Some ''3000000000'',
                  req_limit := Some ''4000000000''\<rparr>)
       = (500, ListError ''Failed to fetch products'')"
proof -
  let ?r = "noQuery\<lparr>req_minPrice := Some ''abc'', req_page := Some ''3000000000'',
                    req_limit := Some ''4000000000''\<rparr>"
  have nan: "parseFloat ''abc'' = NaN"
    by code_simp
  have "parseInt ''3000000000'' = Finite (of_nat (digitsValue 10 ''3000000000''))"
    by (rule parseInt_small) (simp_all add: decimal_def digitsValue_def digitValue_digits)
  then have p: "pageNum ?r = Finite 3000000000"
    by (simp add: pageNum_def orElse_def digitsValue_def digitValue_digits)
  have "parseInt ''4000000000'' = Finite (of_nat (digitsValue 10 ''4000000000''))"
    by (rule parseInt_small) (simp_all add: decimal_def digitsValue_def digitValue_digits)
  then have l: "limitNum ?r = Finite 4000000000"
    by (simp add: limitNum_def orElse_def digitsValue_def digitValue_digits)
  have "toDouble (of_int 2999999999) = Finite (of_int 2999999999)"
    by (rule toDouble_whole) simp
  then have o: "offset ?r = Finite 11999999996000000000"
    by (simp add: offset_def p l huge_offset)
  then have "\<not> sqlInteger (offset ?r)"
    by (simp add: sqlInteger_def)
  with nan o show ?thesis
    by (simp add: listProducts_eq)
qed

subsection \<open>Requests without a filter\<close>

lemma nth_in_page:
  assumes "i < length xs" and "0 < l"
  shows "xs ! i \<in> set (take l (drop (i div l * l) xs))"
proof -
  have k: "i div l * l + i mod l = i"
    by simp
  have "i mod l < l"
    using assms(2) by simp
  moreover have "i mod l < length xs - i div l * l"
    using assms(1) k by linarith
  ultimately have "i mod l < length (take l (drop (i div l * l) xs))"
    by simp
  moreover have "take l (drop (i div l * l) xs) ! (i mod l) = xs ! i"
  proof -
    have "i div l * l \<le> length xs"
      using assms(1) k by linarith
    then have "drop (i div l * l) xs ! (i mod l) = xs ! (i div l * l + i mod l)"
      by (rule nth_drop)
    with \<open>i mod l < l\<close> k show ?thesis
      by simp
  qed
  ultimately show ?thesis
    by (metis nth_mem)
qed

lemma sqlInteger_cases:
  assumes "sqlInteger (limitNum req)"
  obtains l where "limitNum req = Finite (of_int l)" and "l \<noteq> 0" and "- (2 ^ 63) < l" and "l < 2 ^ 63"
proof -
  from assms obtain r where r: "limitNum req = Finite r" "of_int \<lfloor>r\<rfloor> = r"
    "- (2 ^ 63) < r" "r < 2 ^ 63"
    by (cases "limitNum req") (auto simp: sqlInteger_def)
  define l where "l = \<lfloor>r\<rfloor>"
  have rl: "r = of_int l"
    unfolding l_def using r(2) by (rule sym)
  have "l \<noteq> 0"
    using limitNum_whole [of req] r(1) rl by (simp add: wholeNotZero_def)
  moreover have "(of_int (- (2 ^ 63)) :: rat) < of_int l" "(of_int l :: rat) < of_int (2 ^ 63)"
    using r(3,4) rl by simp_all
  then have "- (2 ^ 63) < l" "l < 2 ^ 63"
    by (simp_all only: of_int_less_iff)
  ultimately show ?thesis
    using that r(1) rl by blast
qed

lemma pageNum_digitsOf:
  assumes "0 < n" and "n \<le> 2 ^ 53"
  shows "pageNum (req\<lparr>req_page := Some (digitsOf n)\<rparr>) = Finite (of_int (int n))"
proof -
  have "\<bar>int n\<bar> \<le> 2 ^ 53"
    using assms(2) by simp
  from toDouble_whole [OF this] have "parseInt (digitsOf n) = Finite (of_nat n)"
    by (simp add: parseInt_digitsOf)
  then show ?thesis
    using assms(1) by (simp add: pageNum_def orElse_def)
qed

lemma every_row_on_a_page:
  assumes "row \<in> set rows" and "sqlInteger (limitNum req)" and "length rows < 2 ^ 53"
  shows "\<exists>page. sqlInteger (offset (req\<lparr>req_page := Some page\<rparr>))
                \<and> row \<in> set (pageOf (req\<lparr>req_page := Some page\<rparr>) rows)"
proof -
  from assms(2) obtain l where l: "limitNum req = Finite (of_int l)" "l \<noteq> 0" "l < 2 ^ 63"
    by (rule sqlInteger_cases)
  have lim: "limitNum (req\<lparr>req_page := Some page\<rparr>) = Finite (of_int l)" for page
    using l(1) by (simp add: limitNum_def)
  show ?thesis
  proof (cases "l < 0")
    case True
    let ?r = "req\<lparr>req_page := Some (digitsOf (Suc 0))\<rparr>"
    have "pageNum ?r = Finite (of_int (int (Suc 0)))"
      by (rule pageNum_digitsOf) simp_all
    then have "pageNum ?r = Finite (of_int 1)"
      by simp
    from offset_exact [OF this lim] have o: "offset ?r = Finite 0"
      by simp
    then have "sqlInteger (offset ?r)"
      by (simp add: sqlInteger_def)
    moreover have "pageOf ?r rows = rows"
      using True by (simp add: pageOf_def lim o integerOf_def limitOffset_def)
    ultimately show ?thesis
      using assms(1) by metis
  next
    case False
    with l(2) have pos: "0 < nat l" "int (nat l) = l"
      by simp_all
    from assms(1) obtain i where i: "i < length rows" "rows ! i = row"
      by (auto simp: in_set_conv_nth)
    define n where "n = i div nat l"
    let ?r = "req\<lparr>req_page := Some (digitsOf (Suc n))\<rparr>"
    have nl: "n * nat l \<le> i"
      by (simp add: n_def)
    have "n \<le> i"
      by (simp add: n_def)
    with i(1) assms(3) have "Suc n \<le> 2 ^ 53"
      by simp
    then have "pageNum ?r = Finite (of_int (int (Suc n)))"
      by (intro pageNum_digitsOf) simp_all
    moreover have small: "n * nat l < 2 ^ 53"
      using nl i(1) assms(3) by simp
    then have "int (n * nat l) < 2 ^ 53"
      by (metis of_nat_less_iff of_nat_numeral of_nat_power)
    then have b: "\<bar>(int (Suc n) - 1) * l\<bar> \<le> 2 ^ 53"
      using pos(2) by (simp add: abs_mult) (metis abs_of_nat less_imp_le of_nat_mult pos(2))
    ultimately have "offset ?r = Finite (of_int ((int (Suc n) - 1) * l))"
      using lim by (intro offset_exact)
    then have o: "offset ?r = Finite (of_int (int (n * nat l)))"
      using pos(2) by simp
    define k where "k = int (n * nat l)"
    have "k < 2 ^ 53" "0 \<le> k"
      using \<open>int (n * nat l) < 2 ^ 53\<close> by (simp_all add: k_def)
    then have "(of_int k :: rat) < of_int (2 ^ 53)" "(of_int 0 :: rat) \<le> of_int k"
      by (simp_all only: of_int_less_iff of_int_le_iff)
    then have "(of_int k :: rat) < 2 ^ 53" "(0 :: rat) \<le> of_int k"
      by simp_all
    moreover have "(2::rat) ^ 53 < 2 ^ 63" "- ((2::rat) ^ 63) < 0"
      by simp_all
    ultimately have "- (2 ^ 63) < (of_int k :: rat)" "(of_int k :: rat) < 2 ^ 63"
      by linarith+
    then have "sqlInteger (Finite (of_int k))"
      unfolding sqlInteger_def by simp
    then have "sqlInteger (offset ?r)"
      unfolding o k_def .
    moreover have "pageOf ?r rows = take (nat l) (drop (n * nat l) rows)"
      using False by (simp add: pageOf_def lim o integerOf_def limitOffset_def Let_def del: of_nat_mult)
    then have "row \<in> set (pageOf ?r rows)"
      using nth_in_page [OF i(1) pos(1)] i(2) by (simp add: n_def)
    ultimately show ?thesis
      by metis
  qed
qed

lemma orderedRows_page: "orderedRows tie (req\<lparr>req_page := page\<rparr>) rows = orderedRows tie req rows"
  by (simp add: orderedRows_def sortColumn_def sortOrder_def)

lemma orderedRows_default:
  assumes "req_sortBy req = None" and "req_order req = None"
  shows "sorted (map row_id (orderedRows tie req rows))"
    and "distinct (map row_id rows) \<Longrightarrow> orderedRows tie req rows = sort_key row_id rows"
proof -
  have c: "sortColumn req = ''id''" "sortOrder req = ''ASC''"
    using assms by (simp_all add: sortColumn_def sortOrder_def validSortColumns_def toUpperCase_def)
  then have o: "orderedRows tie req rows = sort_key row_id (sort_key (tie ''id'' ''ASC'') rows)"
    by (simp add: orderedRows_def orderRows_def sortByColumn_def)
  show "sorted (map row_id (orderedRows tie req rows))"
    unfolding o by (rule sorted_sort_key)
  show "orderedRows tie req rows = sort_key row_id rows" if "distinct (map row_id rows)"
  proof -
    let ?a = "sort_key row_id (sort_key (tie ''id'' ''ASC'') rows)" and ?b = "sort_key row_id rows"
    have m: "mset ?a = mset rows" "mset ?b = mset rows"
      by simp_all
    then have s: "set ?a = set rows" "set ?b = set rows"
      by (metis set_mset_mset)+
    have "inj_on row_id (set rows)"
      using that by (simp add: distinct_map)
    moreover have "mset (map row_id ?a) = mset (map row_id rows)" "mset (map row_id ?b) = mset (map row_id rows)"
      using m by (metis mset_map)+
    then have "distinct (map row_id ?a)" "distinct (map row_id ?b)"
      using that by (metis mset_eq_imp_distinct_iff)+
    ultimately have "?a = ?b"
      using s by (intro map_sorted_distinct_set_unique [of row_id]) (simp_all only: sorted_sort_key Un_absorb)
    then show ?thesis
      unfolding o .
  qed
qed

text \<open>
  C4, as amended. When none of \<^verbatim>\<open>category\<close>, \<^verbatim>\<open>search\<close>, \<^verbatim>\<open>minPrice\<close>, \<^verbatim>\<open>maxPrice\<close> is
  supplied, both queries hold the bare \<^verbatim>\<open>WHERE 1=1\<close> and the count query has no
  parameter. When moreover the limit is an integer the store takes and the table has
  fewer than \<open>2^53\<close> rows, every row of the table is on some page that is answered
  with status 200; and on every page that is answered with status 200, the total is the
  number of rows of the table and, when no sort is requested either, the ids ascend: the
  page is the slice at the offset of the table sorted by id, ids being distinct.
\<close>

theorem no_filter_lists_every_row:
  assumes "req_category req = None" and "req_search req = None"
    and "req_minPrice req = None" and "req_maxPrice req = None"
  shows "fst (countCall req) = ''SELECT COUNT(*) as total FROM products WHERE 1=1''
    \<and> snd (countCall req) = []
    \<and> fst (pageCall req) =
        ''SELECT * FROM products WHERE 1=1 ORDER BY '' @ sortColumn req @ '' '' @ sortOrder req
          @ '' LIMIT ? OFFSET ?''
    \<and> snd (pageCall req) = [JNum (limitNum req), JNum (offset req)]
    \<and> (sqlInteger (limitNum req) \<and> length db < 2 ^ 53 \<longrightarrow>
        (\<forall>row \<in> set db.
           \<exists>page. fst (listProducts tie db (req\<lparr>req_page := Some page\<rparr>)) = 200
                  \<and> row \<in> set (body_products (snd (listProducts tie db (req\<lparr>req_page := Some page\<rparr>))))))
    \<and> (sqlInteger (limitNum req) \<and> sqlInteger (offset req) \<longrightarrow>
          fst (listProducts tie db req) = 200
          \<and> pg_total (body_pagination (snd (listProducts tie db req))) = toDouble (of_nat (length db))
          \<and> (length db < 2 ^ 53 \<longrightarrow>
               pg_total (body_pagination (snd (listProducts tie db req))) = Finite (of_nat (length db)))
          \<and> (req_sortBy req = None \<and> req_order req = None \<longrightarrow>
               sorted (map row_id (body_products (snd (listProducts tie db req))))
               \<and> (distinct (map row_id db) \<longrightarrow>
                    body_products (snd (listProducts tie db req))
                      = limitOffset (integerOf (limitNum req)) (integerOf (offset req))
                          (sort_key row_id db))))"
proof -
  have nf: "filter (matches r) db = db"
    if "req_category r = req_category req" "req_search r = req_search req"
      "req_minPrice r = req_minPrice req" "req_maxPrice r = req_maxPrice req" for r
    using that assms by (intro no_filter_matches) simp_all
  have "reqConds req = []" "parameterArray (predicateList req) = []"
    using assms by (simp_all add: reqConds_def predicateList_def parameterArray_def truthy_def)
  then have a: "fst (countCall req) = ''SELECT COUNT(*) as total FROM products WHERE 1=1''"
    "snd (countCall req) = []"
    "fst (pageCall req) =
        ''SELECT * FROM products WHERE 1=1 ORDER BY '' @ sortColumn req @ '' '' @ sortOrder req
          @ '' LIMIT ? OFFSET ?''"
    "snd (pageCall req) = [JNum (limitNum req), JNum (offset req)]"
    by (simp_all add: countCall_def pageCall_def countQuery_conds query_conds params_buildQuery)
  have c: "\<exists>page. fst (listProducts tie db (req\<lparr>req_page := Some page\<rparr>)) = 200
                  \<and> row \<in> set (body_products (snd (listProducts tie db (req\<lparr>req_page := Some page\<rparr>))))"
    if "row \<in> set db" "sqlInteger (limitNum req)" "length db < 2 ^ 53" for row
  proof -
    have "set (orderedRows tie req db) = set db" "length (orderedRows tie req db) = length db"
      using mset_orderedRows [of tie req db] by (metis set_mset_mset, metis size_mset)
    with that have "row \<in> set (orderedRows tie req db)" "length (orderedRows tie req db) < 2 ^ 53"
      by simp_all
    from every_row_on_a_page [OF this(1) that(2) this(2)] obtain page where
      p: "sqlInteger (offset (req\<lparr>req_page := Some page\<rparr>))"
        "row \<in> set (pageOf (req\<lparr>req_page := Some page\<rparr>) (orderedRows tie req db))"
      by blast
    have "limitNum (req\<lparr>req_page := Some page\<rparr>) = limitNum req"
      by (simp add: limitNum_def)
    with that(2) have "sqlInteger (limitNum (req\<lparr>req_page := Some page\<rparr>))"
      by simp
    with p have "fst (listProducts tie db (req\<lparr>req_page := Some page\<rparr>)) = 200
        \<and> row \<in> set (body_products (snd (listProducts tie db (req\<lparr>req_page := Some page\<rparr>))))"
      by (simp add: listProducts_eq nf orderedRows_page)
    then show ?thesis ..
  qed
  have d: "fst (listProducts tie db req) = 200
          \<and> pg_total (body_pagination (snd (listProducts tie db req))) = toDouble (of_nat (length db))
          \<and> (length db < 2 ^ 53 \<longrightarrow>
               pg_total (body_pagination (snd (listProducts tie db req))) = Finite (of_nat (length db)))
          \<and> (req_sortBy req = None \<and> req_order req = None \<longrightarrow>
               sorted (map row_id (body_products (snd (listProducts tie db req))))
               \<and> (distinct (map row_id db) \<longrightarrow>
                    body_products (snd (listProducts tie db req))
                      = limitOffset (integerOf (limitNum req)) (integerOf (offset req))
                          (sort_key row_id db)))"
    if i: "sqlInteger (limitNum req)" "sqlInteger (offset req)"
  proof -
    have e: "listProducts tie db req =
       (200, ProductsPage (pageOf req (orderedRows tie req db))
              \<lparr>pg_page = pageNum req, pg_limit = limitNum req,
               pg_total = toDouble (of_nat (length db)),
               pg_totalPages = mathCeil (jsDiv (toDouble (of_nat (length db))) (limitNum req))\<rparr>)"
      using i by (simp add: listProducts_eq nf)
    have t: "toDouble (of_nat (length db)) = Finite (of_nat (length db))" if "length db < 2 ^ 53"
    proof -
      have "\<bar>int (length db)\<bar> \<le> 2 ^ 53"
        using that by simp
      from toDouble_whole [OF this] show ?thesis by simp
    qed
    have s: "sorted (map row_id (pageOf req (orderedRows tie req db)))"
      if "req_sortBy req = None" "req_order req = None"
      using orderedRows_default(1) [OF that, of tie db]
      by (simp add: pageOf_def limitOffset_def Let_def take_map [symmetric] drop_map [symmetric]
          sorted_wrt_take sorted_wrt_drop del: take_map drop_map)
    have u: "pageOf req (orderedRows tie req db)
        = limitOffset (integerOf (limitNum req)) (integerOf (offset req)) (sort_key row_id db)"
      if "req_sortBy req = None" "req_order req = None" "distinct (map row_id db)"
      using orderedRows_default(2) [OF that] by (simp add: pageOf_def)
    show ?thesis
      using t s u by (simp add: e)
  qed
  from a c d show ?thesis
    by blast
qed

lemma first_page:
  "req_page req = None \<Longrightarrow> sqlInteger (limitNum req) \<Longrightarrow> offset req = Finite 0"
proof -
  assume "req_page req = None" and l: "sqlInteger (limitNum req)"
  then have "pageNum req = Finite (of_int 1)"
    by (simp add: pageNum_def orElse_def parseInt_defaults)
  moreover from l obtain l' where "limitNum req = Finite (of_int l')"
    by (rule sqlInteger_cases)
  ultimately have "offset req = Finite (of_int ((1 - 1) * l'))"
    by (rule offset_exact) simp
  then show ?thesis
    by simp
qed

lemma page_two_of_two:
  "body_products
     (snd (listProducts insertionOrder twoProducts (noQuery\<lparr>req_page := Some ''2'', req_limit := Some ''1''\<rparr>)))
     = drop 1 twoProducts"
proof -
  let ?r = "noQuery\<lparr>req_page := Some ''2'', req_limit := Some ''1''\<rparr>"
  have p: "pageNum ?r = Finite (of_int 2)" "limitNum ?r = Finite (of_int 1)"
    by (simp_all add: second_page)
  then have "offset ?r = Finite (of_int ((2 - 1) * 1))"
    by (rule offset_exact) simp
  then have o: "offset ?r = Finite 1"
    by simp
  have f: "filter (matches ?r) twoProducts = twoProducts"
    by (rule no_filter_matches) (simp_all add: noQuery_def)
  have len: "length twoProducts = 2"
    by (simp add: twoProducts_rows)
  show ?thesis
    unfolding listProducts_eq f twoProducts_by_id
    by (simp add: second_page o sqlInteger_def pageOf_def integerOf_def limitOffset_def len)
qed

theorem no_filter_lists_every_row_witness:
  "req_category (noQuery\<lparr>req_limit := Some ''1''\<rparr>) = None
   \<and> req_search (noQuery\<lparr>req_limit := Some ''1''\<rparr>) = None
   \<and> req_minPrice (noQuery\<lparr>req_limit := Some ''1''\<rparr>) = None
   \<and> req_maxPrice (noQuery\<lparr>req_limit := Some ''1''\<rparr>) = None
   \<and> req_sortBy (noQuery\<lparr>req_limit := Some ''1''\<rparr>) = None
   \<and> req_order (noQuery\<lparr>req_limit := Some ''1''\<rparr>) = None
   \<and> sqlInteger (limitNum (noQuery\<lparr>req_limit := Some ''1''\<rparr>))
   \<and> sqlInteger (offset (noQuery\<lparr>req_limit := Some ''1''\<rparr>))
   \<and> length twoProducts < 2 ^ 53
   \<and> distinct (map row_id twoProducts)
   \<and> twoProducts ! 1 \<in> set twoProducts
   \<and> (\<exists>page. fst (listProducts insertionOrder twoProducts (noQuery\<lparr>req_limit := Some ''1'', req_page := Some page\<rparr>)) = 200
         \<and> twoProducts ! 1 \<in> set (body_products
              (snd (listProducts insertionOrder twoProducts (noQuery\<lparr>req_limit := Some ''1'', req_page := Some page\<rparr>)))))
   \<and> body_products (snd (listProducts insertionOrder twoProducts (noQuery\<lparr>req_limit := Some ''1''\<rparr>)))
       = [twoProducts ! 0]
   \<and> body_products
        (snd (listProducts insertionOrder twoProducts (noQuery\<lparr>req_page := Some ''2'', req_limit := Some ''1''\<rparr>)))
       = [twoProducts ! 1]"
proof -
  let ?r = "noQuery\<lparr>req_limit := Some ''1''\<rparr>"
  have n: "req_category ?r = None" "req_search ?r = None" "req_minPrice ?r = None"
    "req_maxPrice ?r = None" "req_sortBy ?r = None" "req_order ?r = None" "req_page ?r = None"
    by (simp_all add: noQuery_def)
  note t = no_filter_lists_every_row [OF n(1-4), where tie = insertionOrder and db = twoProducts]
  have l: "limitNum ?r = Finite 1"
    by (simp add: second_page)
  then have i: "sqlInteger (limitNum ?r)"
    by (simp add: sqlInteger_def)
  from first_page [OF n(7) i] have o: "offset ?r = Finite 0" .
  then have i': "sqlInteger (offset ?r)"
    by (simp add: sqlInteger_def)
  have len: "length twoProducts < 2 ^ 53" and d: "distinct (map row_id twoProducts)"
    and m: "twoProducts ! 1 \<in> set twoProducts"
    by (simp_all add: twoProducts_rows)
  from t i len m have e: "\<exists>page. fst (listProducts insertionOrder twoProducts (?r\<lparr>req_page := Some page\<rparr>)) = 200
         \<and> twoProducts ! 1 \<in> set (body_products
              (snd (listProducts insertionOrder twoProducts (?r\<lparr>req_page := Some page\<rparr>))))"
    by blast
  have s: "sort_key row_id twoProducts = twoProducts"
    unfolding twoProducts_rows by code_simp
  from t i i' n(5,6) d have "body_products (snd (listProducts insertionOrder twoProducts ?r))
      = limitOffset (integerOf (limitNum ?r)) (integerOf (offset ?r)) (sort_key row_id twoProducts)"
    by blast
  then have b: "body_products (snd (listProducts insertionOrder twoProducts ?r)) = [twoProducts ! 0]"
    by (simp add: s l o integerOf_def limitOffset_def twoProducts_rows)
  have b2: "body_products
        (snd (listProducts insertionOrder twoProducts (noQuery\<lparr>req_page := Some ''2'', req_limit := Some ''1''\<rparr>)))
       = [twoProducts ! 1]"
    unfolding page_two_of_two by (simp add: twoProducts_rows)
  from n(1-6) i i' len d m e b b2 show ?thesis
    by simp
qed

lemma ten_to_19: "toDouble 10000000000000000000 = Finite 10000000000000000000"
proof -
  have "bitlen 10000000000000000000 = 64"
    by (simp add: compute_bitlen)
  then have "binexp 10000000000000000000 = 63"
    by (simp add: binexp_def)
  then have "roundDouble 10000000000000000000 = 10000000000000000000"
    by (simp add: roundDouble_def pow2_def roundHalfEven_def Let_def)
  then show ?thesis
    by (simp add: toDouble_def Let_def)
qed

text \<open>
  C4, as stated, fails: with no filter and \<^verbatim>\<open>limit=10000000000000000000\<close>, which is
  above \<open>2^63\<close>, the store refuses the limit and every page is answered with status 500,
  so no row of the table is returned on any page.
\<close>

theorem no_filter_huge_limit:
  "req_category (noQuery\<lparr>req_limit := Some ''10000000000000000000''\<rparr>) = None
   \<and> req_search (noQuery\<lparr>req_limit := Some ''10000000000000000000''\<rparr>) = None
   \<and> req_minPrice (noQuery\<lparr>req_limit := Some ''10000000000000000000''\<rparr>) = None
   \<and> req_maxPrice (noQuery\<lparr>req_limit := Some ''10000000000000000000''\<rparr>) = None
   \<and> twoProducts \<noteq> []
   \<and> limitNum (noQuery\<lparr>req_limit := Some ''10000000000000000000''\<rparr>) = Finite 10000000000000000000
   \<and> listProducts insertionOrder twoProducts (noQuery\<lparr>req_limit := Some ''10000000000000000000''\<rparr>)
       = (500, ListError ''Failed to fetch products'')
   \<and> (\<forall>page. listProducts insertionOrder twoProducts
                (noQuery\<lparr>req_limit := Some ''10000000000000000000'', req_page := Some page\<rparr>)
              = (500, ListError ''Failed to fetch products''))"
proof -
  have "parseInt ''10000000000000000000'' = toDouble (of_nat (digitsValue 10 ''10000000000000000000''))"
    by (rule parseInt_decimal) (simp_all add: decimal_def)
  then have p: "parseInt ''10000000000000000000'' = Finite 10000000000000000000"
    by (simp add: digitsValue_def digitValue_digits ten_to_19)
  have l: "limitNum (noQuery\<lparr>req_limit := Some ''10000000000000000000'', req_page := page\<rparr>)
      = Finite 10000000000000000000" for page
    by (simp add: limitNum_def orElse_def p)
  then have "\<not> sqlInteger (limitNum (noQuery\<lparr>req_limit := Some ''10000000000000000000'', req_page := page\<rparr>))"
    for page
    by (simp add: sqlInteger_def)
  then have e: "listProducts insertionOrder twoProducts
                (noQuery\<lparr>req_limit := Some ''10000000000000000000'', req_page := page\<rparr>)
              = (500, ListError ''Failed to fetch products'')" for page
    by (simp add: listProducts_eq)
  have n: "noQuery\<lparr>req_limit := Some ''10000000000000000000'', req_page := None\<rparr>
      = noQuery\<lparr>req_limit := Some ''10000000000000000000''\<rparr>"
    by (simp add: noQuery_def)
  from e [of None] l [of None] e show ?thesis
    unfolding n by (simp add: noQuery_def twoProducts_rows)
qed

subsection \<open>Rendering to two decimal places\<close>







subsection \<open>GET /api/statistics\<close>



























subsection \<open>PUT /api/products/:id\<close>

lemma sql_update_twice:
  "sql_update now' (fst (sql_update now db f ident)) f ident = sql_update now db f ident"
proof -
  obtain c n d q p cd where f: "f = (c, n, d, q, p, cd)"
    by (cases f)
  define u :: "product \<Rightarrow> product" where "u = (\<lambda>row. if row_id row = ident
                  then row\<lparr>row_category := c, row_name := n, row_description := d, row_quantity := q,
                           row_unit_price := p, row_code := cd\<rparr>
                  else row)"
  have upd: "sql_update t rows f ident = (map u rows, length (filter (\<lambda>row. row_id row = ident) rows))"
    for t rows
    by (simp add: f sql_update_def u_def)
  have id: "row_id (u row) = row_id row" for row
    by (simp add: u_def)
  have "u (u row) = u row" for row
    by (simp add: u_def)
  then have "u \<circ> u = u"
    by (simp add: fun_eq_iff)
  then have "map u (map u db) = map u db"
    by simp
  moreover have "length (filter (\<lambda>row. row_id row = ident) (map u db))
      = length (filter (\<lambda>row. row_id row = ident) db)"
    by (simp add: filter_map comp_def id)
  ultimately show ?thesis
    by (simp add: upd)
qed

lemma changes_existing:
  "ident \<in> set (map row_id db) \<Longrightarrow> snd (sql_update now db f ident) \<noteq> 0"
  by (cases f) (auto simp: sql_update_def filter_empty_conv)


text \<open>
  C9. For an id that is in the table and a body that passes validation, the PUT
  reports success, the same PUT done again (at any later time) reports success too, and
  the table after the second is the table after the first.
\<close>

theorem put_idempotent:
  assumes "ident \<in> set (map row_id db)" and "validateId ident = []" and "validateProduct b = []"
  shows "fst (fst (putProduct now db ident b)) = 200
    \<and> fst (fst (putProduct now' (snd (putProduct now db ident b)) ident b)) = 200
    \<and> snd (putProduct now' (snd (putProduct now db ident b)) ident b) = snd (putProduct now db ident b)"
proof -
  let ?f = "(the (body_category (sanitized b)), the (body_name (sanitized b)),
             body_description (sanitized b), \<lfloor>the (body_quantity (sanitized b))\<rfloor>,
             the (body_unit_price (sanitized b)), the (body_code (sanitized b)))"
  have one: "putProduct t d ident b =
      ((if snd (sql_update t d ?f ident) = 0 then (404, ErrorMessage ''Product not found'')
        else (200, IdMessage ident ''Product updated successfully'')), fst (sql_update t d ?f ident))" for t d
    using assms(2,3) by (simp add: putProduct_def Let_def split: prod.splits)
  have ch: "snd (sql_update now db ?f ident) \<noteq> 0"
    by (rule changes_existing [OF assms(1)])
  have two: "sql_update now' (fst (sql_update now db ?f ident)) ?f ident = sql_update now db ?f ident"
    by (rule sql_update_twice)
  show ?thesis
    using ch by (simp add: one two)
qed

theorem put_idempotent_witness:
  "''000-01'' \<in> set (map row_id (testTable ''2024-01-01 00:00:00''))
   \<and> validateId ''000-01'' = [] \<and> validateProduct newProduct = []
   \<and> fst (fst (putProduct ''2024-06-01 12:00:00'' (testTable ''2024-01-01 00:00:00'') ''000-01'' newProduct)) = 200
   \<and> snd (putProduct ''2024-06-02 12:00:00''
             (snd (putProduct ''2024-06-01 12:00:00'' (testTable ''2024-01-01 00:00:00'') ''000-01'' newProduct))
             ''000-01'' newProduct)
       = snd (putProduct ''2024-06-01 12:00:00'' (testTable ''2024-01-01 00:00:00'') ''000-01'' newProduct)"
proof -
  have "''000-01'' \<in> set (map row_id (testTable ''2024-01-01 00:00:00''))"
    by (simp add: testTable_def)
  from this newProduct_valid(4) newProduct_valid(1) put_idempotent [OF this newProduct_valid(4) newProduct_valid(1)]
  show ?thesis
    by blast
qed

text \<open>
  C8 at its failing input. No answer of the handler changes an \<^verbatim>\<open>updated_at\<close>: the
  statement sets the six fields only and the table has no trigger. The row
  \<^verbatim>\<open>000-99\<close>, inserted on 2024-01-02, is renamed on 2024-06-01 with a new quantity; the
  answer is status 200, the name and the quantity are replaced, the id and \<^verbatim>\<open>created_at\<close>
  are kept, the other row is untouched, and \<^verbatim>\<open>updated_at\<close> is still the time of insertion,
  not the time of the update.
\<close>

theorem update_keeps_updated_at:
  "map row_updated_at (snd (putProduct now db ident b)) = map row_updated_at db
   \<and> validateId ''000-99'' @ validateProduct (newProduct\<lparr>body_name := Some ''Renamed'', body_quantity := Some 7\<rparr>) = []
   \<and> putProduct ''2024-06-01 12:00:00'' twoProducts ''000-99''
         (newProduct\<lparr>body_name := Some ''Renamed'', body_quantity := Some 7\<rparr>)
       = ((200, IdMessage ''000-99'' ''Product updated successfully''),
          [\<lparr>row_id = ''000-01'', row_category = ''clothing'', row_name = ''Test Product'',
            row_description = Some ''Test Description'', row_quantity = 100, row_unit_price = 50,
            row_code = ''000-01'', row_created_at = ''2024-01-01 00:00:00'',
            row_updated_at = ''2024-01-01 00:00:00''\<rparr>,
           \<lparr>row_id = ''000-99'', row_category = ''test'', row_name = ''Renamed'',
            row_description = Some ''Test Description'', row_quantity = 7, row_unit_price = 25,
            row_code = ''000-99'', row_created_at = ''2024-01-02 00:00:00'',
            row_updated_at = ''2024-01-02 00:00:00''\<rparr>])"
proof -
  have u: "map row_updated_at (fst (sql_update t d f i)) = map row_updated_at d" for t d f i
    by (cases f) (simp add: sql_update_def comp_def)
  have a: "map row_updated_at (snd (putProduct now db ident b)) = map row_updated_at db"
    by (simp add: putProduct_def Let_def u split: prod.splits)
       (metis fst_conv u)
  have v: "validateId ''000-99'' @ validateProduct (newProduct\<lparr>body_name := Some ''Renamed'', body_quantity := Some 7\<rparr>) = []"
    by code_simp
  have e: "putProduct ''2024-06-01 12:00:00'' twoProducts ''000-99''
         (newProduct\<lparr>body_name := Some ''Renamed'', body_quantity := Some 7\<rparr>)
       = ((200, IdMessage ''000-99'' ''Product updated successfully''),
          [\<lparr>row_id = ''000-01'', row_category = ''clothing'', row_name = ''Test Product'',
            row_description = Some ''Test Description'', row_quantity = 100, row_unit_price = 50,
            row_code = ''000-01'', row_created_at = ''2024-01-01 00:00:00'',
            row_updated_at = ''2024-01-01 00:00:00''\<rparr>,
           \<lparr>row_id = ''000-99'', row_category = ''test'', row_name = ''Renamed'',
            row_description = Some ''Test Description'', row_quantity = 7, row_unit_price = 25,
            row_code = ''000-99'', row_created_at = ''2024-01-02 00:00:00'',
            row_updated_at = ''2024-01-02 00:00:00''\<rparr>])"
    unfolding twoProducts_rows by code_simp
  from a v e show ?thesis
    by (intro conjI)
qed

subsection \<open>POST /api/products\<close>

text \<open>
  C5 at its failing inputs. The body of the tests without its \<^verbatim>\<open>description\<close>, and
  the same body with \<^verbatim>\<open>unit_price\<close> 0, both pass \<^verbatim>\<open>validateProduct\<close>, yet the handler
  answers 400 and inserts nothing; the body itself is accepted with 201.
\<close>

theorem post_refuses_valid_bodies:
  "validateProduct (newProduct\<lparr>body_description := None\<rparr>) = []
   \<and> postProduct ''2024-06-01 12:00:00'' [] (newProduct\<lparr>body_description := None\<rparr>)
       = ((400, ErrorMessage ''Missing required fields''), [])
   \<and> validateProduct (newProduct\<lparr>body_unit_price := Some 0\<rparr>) = []
   \<and> postProduct ''2024-06-01 12:00:00'' [] (newProduct\<lparr>body_unit_price := Some 0\<rparr>)
       = ((400, ErrorMessage ''Missing required fields''), [])
   \<and> fst (postProduct ''2024-06-01 12:00:00'' [] newProduct)
       = (201, IdMessage ''000-99'' ''Product created successfully'')"
  by code_simp



subsection \<open>GET /api/products/export/csv\<close>

lemma replaceQuotes_doubles:
  "replaceQuotes s = concat (map (\<lambda>c. if c = CHR 0x22 then [CHR 0x22, CHR 0x22] else [c]) s)"
  by (induction s) simp_all

lemma join_lines: "join sep (x # xs) = x @ concat (map (\<lambda>y. sep @ y) xs)"
  by (induction xs arbitrary: x) simp_all

text \<open>
  C6, as amended. The export begins with the header row
  \<^verbatim>\<open>ID,Category,Name,Description,Quantity,Unit Price,Code\<close>; each record, in the order
  of the ids, is one row in which the category, the name and the description are wrapped
  in double quotes and the id, the quantity, the unit price and the code are written
  bare; every double quote inside the description is doubled.
\<close>

theorem csv_export_format:
  "fst (exportCsv numberToString db) = 200
   \<and> snd (exportCsv numberToString db) =
       join [CHR 0x0A]
         (''ID,Category,Name,Description,Quantity,Unit Price,Code'' #
          map (\<lambda>row. row_id row @ '','' @ [CHR 0x22] @ row_category row @ [CHR 0x22]
                   @ '','' @ [CHR 0x22] @ row_name row @ [CHR 0x22]
                   @ '','' @ quoted (case row_description row of None \<Rightarrow> [] | Some d \<Rightarrow> d)
                   @ '','' @ numberToString (quantityOf row)
                   @ '','' @ numberToString (unitPriceOf row)
                   @ '','' @ row_code row)
              (sort_key row_id db))
   \<and> (\<exists>rest. snd (exportCsv numberToString db)
                 = ''ID,Category,Name,Description,Quantity,Unit Price,Code'' @ rest
               \<and> (rest = [] \<or> hd rest = CHR 0x0A))"
proof -
  have h: "join '','' headers = ''ID,Category,Name,Description,Quantity,Unit Price,Code''"
    by (simp add: headers_def)
  have v: "join '','' (csvValues numberToString row) =
      row_id row @ '','' @ [CHR 0x22] @ row_category row @ [CHR 0x22]
                   @ '','' @ [CHR 0x22] @ row_name row @ [CHR 0x22]
                   @ '','' @ quoted (case row_description row of None \<Rightarrow> [] | Some d \<Rightarrow> d)
                   @ '','' @ numberToString (quantityOf row)
                   @ '','' @ numberToString (unitPriceOf row)
                   @ '','' @ row_code row" for row
    by (simp add: csvValues_def quoted_def replaceQuotes_doubles)
  define lines where "lines = map (\<lambda>row. join '','' (csvValues numberToString row)) (sort_key row_id db)"
  have e: "exportCsv numberToString db =
     (200, join [CHR 0x0A] (''ID,Category,Name,Description,Quantity,Unit Price,Code'' # lines))"
    unfolding exportCsv_def Let_def h lines_def by simp
  have "\<exists>rest. join [CHR 0x0A] (x # xs) = x @ rest \<and> (rest = [] \<or> hd rest = CHR 0x0A)" for x xs
    unfolding join_lines by (cases xs) simp_all
  then obtain rest where
    "join [CHR 0x0A] (''ID,Category,Name,Description,Quantity,Unit Price,Code'' # lines)
       = ''ID,Category,Name,Description,Quantity,Unit Price,Code'' @ rest"
    "rest = [] \<or> hd rest = CHR 0x0A"
    by blast
  then have "\<exists>rest. snd (exportCsv numberToString db)
                 = ''ID,Category,Name,Description,Quantity,Unit Price,Code'' @ rest
               \<and> (rest = [] \<or> hd rest = CHR 0x0A)"
    unfolding e snd_conv by blast
  moreover have "fst (exportCsv numberToString db) = 200"
    unfolding e by simp
  moreover have "snd (exportCsv numberToString db) =
       join [CHR 0x0A]
         (''ID,Category,Name,Description,Quantity,Unit Price,Code'' #
          map (\<lambda>row. row_id row @ '','' @ [CHR 0x22] @ row_category row @ [CHR 0x22]
                   @ '','' @ [CHR 0x22] @ row_name row @ [CHR 0x22]
                   @ '','' @ quoted (case row_description row of None \<Rightarrow> [] | Some d \<Rightarrow> d)
                   @ '','' @ numberToString (quantityOf row)
                   @ '','' @ numberToString (unitPriceOf row)
                   @ '','' @ row_code row)
              (sort_key row_id db))"
    unfolding e snd_conv lines_def v by (rule refl)
  ultimately show ?thesis
    by blast
qed

text \<open>
  C6, as stated, fails on the table of the tests (whose numbers, 100 and 50, are written
  by their digits): the text fields \<^verbatim>\<open>id\<close> and \<^verbatim>\<open>code\<close> are written without
  quotes, so the export is not the one in which every text field is a quoted field.
\<close>

theorem csv_fields_not_all_quoted:
  "snd (exportCsv (digitsOf \<circ> nat \<circ> floor) (testTable ''2024-01-01 00:00:00''))
     = ''ID,Category,Name,Description,Quantity,Unit Price,Code''
       @ [CHR 0x0A] @ ''000-01,'' @ [CHR 0x22] @ ''clothing'' @ [CHR 0x22] @ '','' @ [CHR 0x22]
       @ ''Test Product'' @ [CHR 0x22] @ '','' @ [CHR 0x22] @ ''Test Description'' @ [CHR 0x22]
       @ '',100,50,000-01''
   \<and> snd (exportCsv (digitsOf \<circ> nat \<circ> floor) (testTable ''2024-01-01 00:00:00''))
       \<noteq> csvAsSpecified (digitsOf \<circ> nat \<circ> floor) (testTable ''2024-01-01 00:00:00'')"
  by code_simp

end
